theory Spec2Isabelle
  imports Main
begin

section \<open>JavaScript strings\<close>

text \<open>
  A JavaScript string is a sequence of UTF-16 code units. The program's literals are
  Chinese, and \<open>String.prototype.trim\<close> removes white space far beyond Latin-1, so a
  string is modelled as the list of its code units.
\<close>

type_synonym jsstring = "nat list"

definition str :: "string \<Rightarrow> jsstring" where
  "str s = map of_char s"

text \<open>
  The code units that \<open>trim\<close> and \<open>parseInt\<close> skip: ECMAScript's WhiteSpace (TAB, VT,
  FF, U+FEFF and the category Zs: SP, NBSP, U+1680, U+2000..U+200A, U+202F, U+205F,
  U+3000) and LineTerminator (LF, CR, U+2028, U+2029).
\<close>

definition isWhiteSpace :: "nat \<Rightarrow> bool" where
  "isWhiteSpace c \<longleftrightarrow>
     c = 0x09 \<or> c = 0x0A \<or> c = 0x0B \<or> c = 0x0C \<or> c = 0x0D \<or> c = 0x20 \<or> c = 0xA0 \<or>
     c = 0x1680 \<or> (0x2000 \<le> c \<and> c \<le> 0x200A) \<or> c = 0x2028 \<or> c = 0x2029 \<or>
     c = 0x202F \<or> c = 0x205F \<or> c = 0x3000 \<or> c = 0xFEFF"

definition trimStart :: "jsstring \<Rightarrow> jsstring" where
  "trimStart s = dropWhile isWhiteSpace s"

definition trim :: "jsstring \<Rightarrow> jsstring" where
  "trim s = rev (dropWhile isWhiteSpace (rev (trimStart s)))"

text \<open>The class \<open>\d\<close> of a JavaScript regular expression: the ten ASCII digits.\<close>

definition isDigit :: "nat \<Rightarrow> bool" where
  "isDigit c \<longleftrightarrow> 0x30 \<le> c \<and> c \<le> 0x39"

text \<open>
  \<open>/^\d{4}-\d{2}-\d{2}$/.test(s)\<close> on a string: without the \<open>m\<close> flag the anchors are
  the two ends of the input, so the whole string is four digits, a hyphen, two digits, a
  hyphen, two digits.
\<close>

definition dateRe :: "jsstring \<Rightarrow> bool" where
  "dateRe s \<longleftrightarrow>
     length s = 10 \<and> list_all isDigit (take 4 s) \<and> s ! 4 = 0x2D \<and>
     list_all isDigit (take 2 (drop 5 s)) \<and> s ! 7 = 0x2D \<and> list_all isDigit (drop 8 s)"

text \<open>
  The decimal text of an integer, as a template literal or \<open>String\<close> prints a Number that
  holds an integer. Numbers are modelled by exact integers: a Number holds an integer
  exactly up to \<open>2^53\<close>, a length that no collection reaches, and an index segment
  with more digits than that is outside the model.
\<close>

fun digitsOf :: "nat \<Rightarrow> jsstring" where
  "digitsOf n = (if n < 10 then [0x30 + n] else digitsOf (n div 10) @ [0x30 + n mod 10])"

declare digitsOf.simps [simp del]

definition intToString :: "int \<Rightarrow> jsstring" where
  "intToString i = (if i < 0 then 0x2D # digitsOf (nat (- i)) else digitsOf (nat i))"

section \<open>Values of \<open>JSON.parse\<close>\<close>

text \<open>
  What \<open>JSON.parse\<close> returns. An object is the list of its own properties; a parsed
  object has no two properties of one name. \<open>undefined\<close> is not a JSON value: a property
  read gives \<open>json option\<close>, with \<open>None\<close> for \<open>undefined\<close>.
\<close>

datatype json =
    JNull
  | JBool bool
  | JNum int
  | JStr jsstring
  | JArr "json list"
  | JObj "(jsstring \<times> json) list"

datatype exn = TypeError | SyntaxError | IOError

definition bindE :: "exn + 'a \<Rightarrow> ('a \<Rightarrow> exn + 'b) \<Rightarrow> exn + 'b" where
  "bindE m f = (case m of Inl e \<Rightarrow> Inl e | Inr x \<Rightarrow> f x)"

text \<open>
  \<open>data.k\<close> for the property names this program reads (\<open>book\<close>, \<open>author\<close>, \<open>summary\<close>,
  \<open>subDate\<close>, \<open>content\<close>): none of them is defined on a built-in prototype, so the read
  gives the object's own property or \<open>undefined\<close>; on \<open>null\<close> it throws a TypeError.
\<close>

fun getProp :: "json \<Rightarrow> jsstring \<Rightarrow> exn + json option" where
  "getProp JNull k = Inl TypeError"
| "getProp (JObj kvs) k = Inr (map_of kvs k)"
| "getProp (JBool b) k = Inr None"
| "getProp (JNum n) k = Inr None"
| "getProp (JStr s) k = Inr None"
| "getProp (JArr xs) k = Inr None"

text \<open>\<open>!v\<close> is \<open>\<not> truthy v\<close>.\<close>

fun truthy :: "json option \<Rightarrow> bool" where
  "truthy None = False"
| "truthy (Some JNull) = False"
| "truthy (Some (JBool b)) = b"
| "truthy (Some (JNum n)) = (n \<noteq> 0)"
| "truthy (Some (JStr s)) = (s \<noteq> [])"
| "truthy (Some (JArr xs)) = True"
| "truthy (Some (JObj kvs)) = True"

text \<open>
  \<open>v.trim()\<close>: only a string has the method; on any other value \<open>v.trim\<close> is
  \<open>undefined\<close> or a JSON value, and the call throws a TypeError.
\<close>

fun callTrim :: "json option \<Rightarrow> exn + jsstring" where
  "callTrim (Some (JStr s)) = Inr (trim s)"
| "callTrim v = Inl TypeError"

text \<open>
  \<open>String(v)\<close>, which \<open>RegExp.prototype.test\<close> applies to its argument. An array is
  joined with commas, \<open>null\<close> elements printing as the empty string. An object prints
  through the inherited \<open>toString\<close>; an own property of that name is a JSON value, which
  cannot be called, and the conversion throws a TypeError.
\<close>

fun intercalate :: "jsstring \<Rightarrow> jsstring list \<Rightarrow> jsstring" where
  "intercalate sep [] = []"
| "intercalate sep [x] = x"
| "intercalate sep (x # y # ys) = x @ sep @ intercalate sep (y # ys)"

fun toString :: "json \<Rightarrow> exn + jsstring"
  and elemStrings :: "json list \<Rightarrow> exn + jsstring list" where
  "toString JNull = Inr (str ''null'')"
| "toString (JBool b) = Inr (if b then str ''true'' else str ''false'')"
| "toString (JNum n) = Inr (intToString n)"
| "toString (JStr s) = Inr s"
| "toString (JArr xs) =
     (case elemStrings xs of Inl e \<Rightarrow> Inl e | Inr ss \<Rightarrow> Inr (intercalate (str '','') ss))"
| "toString (JObj kvs) =
     (if map_of kvs (str ''toString'') = None then Inr (str ''[object Object]'')
      else Inl TypeError)"
| "elemStrings [] = Inr []"
| "elemStrings (x # xs) =
     (case (if x = JNull then Inr [] else toString x) of
        Inl e \<Rightarrow> Inl e
      | Inr s \<Rightarrow> (case elemStrings xs of Inl e \<Rightarrow> Inl e | Inr ss \<Rightarrow> Inr (s # ss)))"

text \<open>\<open>/^\d{4}-\d{2}-\d{2}$/.test(v)\<close>\<close>

definition testDate :: "json option \<Rightarrow> exn + bool" where
  "testDate v =
     bindE (case v of None \<Rightarrow> Inr (str ''undefined'') | Some x \<Rightarrow> toString x)
       (\<lambda>s. Inr (dateRe s))"

section \<open>The validator\<close>

definition err_book :: jsstring where
  "err_book = [0x4E66, 0x7C4D, 0x540D, 0x79F0, 0x4E0D, 0x80FD, 0x4E3A, 0x7A7A]"

definition err_author :: jsstring where
  "err_author = [0x4F5C, 0x8005, 0x540D, 0x4E0D, 0x80FD, 0x4E3A, 0x7A7A]"

definition err_summary :: jsstring where
  "err_summary = [0x4E66, 0x7C4D, 0x7B80, 0x4ECB, 0x4E0D, 0x80FD, 0x4E3A, 0x7A7A]"

definition err_subDate :: jsstring where
  "err_subDate = [0x53D1, 0x5E03, 0x65E5, 0x671F, 0x683C, 0x5F0F, 0x4E0D, 0x6B63, 0x786E,
     0xFF0C, 0x5E94, 0x4E3A] @ str ''YYYY-MM-DD''"

text \<open>\<open>!data.k || data.k.trim() === ''\<close>\<close>

definition isBlank :: "json \<Rightarrow> jsstring \<Rightarrow> exn + bool" where
  "isBlank data k =
     bindE (getProp data k) (\<lambda>v.
       if \<not> truthy v then Inr True
       else bindE (callTrim v) (\<lambda>t. Inr (t = [])))"

text \<open>\<open>!data.subDate || !/^\d{4}-\d{2}-\d{2}$/.test(data.subDate)\<close>\<close>

definition isBadDate :: "json \<Rightarrow> exn + bool" where
  "isBadDate data =
     bindE (getProp data (str ''subDate'')) (\<lambda>v.
       if \<not> truthy v then Inr True
       else bindE (testDate v) (\<lambda>matches. Inr (\<not> matches)))"

text \<open>
  \<open>validateBookData\<close>: the array \<open>errors\<close> grows by \<open>push\<close> through four \<open>if\<close>
  statements in sequence. A TypeError thrown by a property read or by \<open>trim\<close> leaves the
  function; the handlers catch it.
\<close>

definition validateBookData :: "json \<Rightarrow> exn + jsstring list" where
  "validateBookData data =
     bindE (isBlank data (str ''book'')) (\<lambda>b1.
       let errors1 = (if b1 then [err_book] else []) in
       bindE (isBlank data (str ''author'')) (\<lambda>b2.
         let errors2 = (if b2 then errors1 @ [err_author] else errors1) in
         bindE (isBlank data (str ''summary'')) (\<lambda>b3.
           let errors3 = (if b3 then errors2 @ [err_summary] else errors2) in
           bindE (isBadDate data) (\<lambda>b4.
             Inr (if b4 then errors3 @ [err_subDate] else errors3)))))"

section \<open>Numbers\<close>

text \<open>
  The index of a request is what \<open>parseInt\<close> returns: \<open>NaN\<close> or an integer. Every
  comparison with \<open>NaN\<close> is false, and \<open>NaN + 1\<close> is \<open>NaN\<close>.
\<close>

datatype jsnum = NaN | Num int

fun jsLess :: "jsnum \<Rightarrow> jsnum \<Rightarrow> bool" where
  "jsLess (Num a) (Num b) = (a < b)"
| "jsLess a b = False"

fun jsGreaterEq :: "jsnum \<Rightarrow> jsnum \<Rightarrow> bool" where
  "jsGreaterEq (Num a) (Num b) = (a \<ge> b)"
| "jsGreaterEq a b = False"

fun jsPlus1 :: "jsnum \<Rightarrow> jsnum" where
  "jsPlus1 NaN = NaN"
| "jsPlus1 (Num a) = Num (a + 1)"

fun numToString :: "jsnum \<Rightarrow> jsstring" where
  "numToString NaN = str ''NaN''"
| "numToString (Num a) = intToString a"

text \<open>
  \<open>parseInt(s)\<close> with no radix: leading white space is skipped, then an optional sign,
  then an optional \<open>0x\<close> or \<open>0X\<close> (which makes the radix 16), then the longest run of
  digits of the radix; with no digit the result is \<open>NaN\<close>.
\<close>

definition digitValue :: "nat \<Rightarrow> nat" where
  "digitValue c =
     (if 0x30 \<le> c \<and> c \<le> 0x39 then c - 0x30
      else if 0x61 \<le> c \<and> c \<le> 0x7A then c - 0x61 + 10
      else if 0x41 \<le> c \<and> c \<le> 0x5A then c - 0x41 + 10
      else 36)"

definition isRadixDigit :: "nat \<Rightarrow> nat \<Rightarrow> bool" where
  "isRadixDigit r c \<longleftrightarrow> digitValue c < r"

definition parseInt :: "jsstring \<Rightarrow> jsnum" where
  "parseInt input =
     (let s = trimStart input;
          negative = (take 1 s = [0x2D]);
          s1 = (if take 1 s = [0x2B] \<or> take 1 s = [0x2D] then drop 1 s else s);
          hex = (take 2 s1 = [0x30, 0x78] \<or> take 2 s1 = [0x30, 0x58]);
          r = (if hex then 16 else 10);
          s2 = (if hex then drop 2 s1 else s1);
          z = takeWhile (isRadixDigit r) s2;
          mathInt = foldl (\<lambda>a c. a * r + digitValue c) 0 z
      in if z = [] then NaN
         else Num (if negative then - int mathInt else int mathInt))"

text \<open>\<open>s.split('/')\<close>, and \<open>parseInt(pathname.split('/')[3])\<close>.\<close>

fun splitOn :: "nat \<Rightarrow> jsstring \<Rightarrow> jsstring list" where
  "splitOn sep [] = [[]]"
| "splitOn sep (c # cs) =
     (if c = sep then [] # splitOn sep cs
      else (case splitOn sep cs of [] \<Rightarrow> [[c]] | x # xs \<Rightarrow> (c # x) # xs))"

definition pathIndex :: "jsstring \<Rightarrow> jsnum" where
  "pathIndex pathname =
     (case drop 3 (splitOn 0x2F pathname) of
        [] \<Rightarrow> parseInt (str ''undefined'')
      | seg # rest \<Rightarrow> parseInt seg)"

text \<open>
  \<open>books.splice(index, 1)\<close>: the start is \<open>0\<close> for \<open>NaN\<close>, counts from the end when
  negative and is clamped to the length; the result is the removed elements and the
  array that remains.
\<close>

definition splice1 :: "jsnum \<Rightarrow> 'a list \<Rightarrow> 'a list \<times> 'a list" where
  "splice1 index xs =
     (let len = int (length xs);
          start = (case index of
                     NaN \<Rightarrow> 0
                   | Num i \<Rightarrow> if i < 0 then max (len + i) 0 else min i len);
          k = nat start
      in (take 1 (drop k xs), take k xs @ drop (k + 1) xs))"

text \<open>
  \<open>books[index] = v\<close> as \<open>JSON.stringify\<close> then sees the array: an index inside the array
  replaces the element; \<open>NaN\<close> or a negative index sets a named property, which is not
  serialised; an index at or past the end extends the array with \<open>null\<close> holes.
\<close>

definition assignAt :: "jsnum \<Rightarrow> json \<Rightarrow> json list \<Rightarrow> json list" where
  "assignAt index v xs =
     (case index of
        NaN \<Rightarrow> xs
      | Num i \<Rightarrow>
          if i < 0 then xs
          else if nat i < length xs then xs[nat i := v]
          else xs @ replicate (nat i - length xs) JNull @ [v])"

section \<open>The files and the console\<close>

text \<open>
  The text of \<open>book.json\<close> is represented by what \<open>JSON.parse\<close> makes of it: the file is
  missing, or its text does not parse, or it parses to an array. \<open>writeBooks\<close> only ever
  stores an array, so from a missing file on nothing else is reached; a file edited by
  hand into another JSON value is outside this model.

  The directory of the content files maps a file name to the file's text. The
  environment can make the write of \<open>book.json\<close> fail (\<open>book_json_locked\<close>) and make
  reading, writing and removing a content file fail (\<open>io_fails\<close>); a failed operation
  changes nothing. \<open>console\<close> is what \<open>console.error\<close> has printed.
\<close>

datatype json_file = Missing | Unparsable | Holds "json list"

record world =
  book_json :: json_file
  book_json_locked :: bool
  files :: "jsstring \<Rightarrow> jsstring option"
  io_fails :: "jsstring \<Rightarrow> bool"
  console :: "jsstring list"

definition msg_read_failed :: jsstring where
  "msg_read_failed = [0x8BFB, 0x53D6, 0x4E66, 0x7C4D, 0x6570, 0x636E, 0x5931, 0x8D25, 0x3A]"

definition msg_write_failed :: jsstring where
  "msg_write_failed = [0x5199, 0x5165, 0x4E66, 0x7C4D, 0x6570, 0x636E, 0x5931, 0x8D25, 0x3A]"

definition consoleError :: "jsstring \<Rightarrow> world \<Rightarrow> world" where
  "consoleError m w = w\<lparr>console := console w @ [m]\<rparr>"

text \<open>
  The content files are written and read as utf8. The encoding has no bytes for a
  surrogate code unit that stands alone: it is written as U+FFFD, and what is read is
  always well-formed. \<open>toWellFormed\<close> is that passage through utf8: a high surrogate
  followed by a low one stays, every other surrogate becomes U+FFFD.
\<close>

definition isHighSurrogate :: "nat \<Rightarrow> bool" where
  "isHighSurrogate c \<longleftrightarrow> 0xD800 \<le> c \<and> c \<le> 0xDBFF"

definition isLowSurrogate :: "nat \<Rightarrow> bool" where
  "isLowSurrogate c \<longleftrightarrow> 0xDC00 \<le> c \<and> c \<le> 0xDFFF"

fun toWellFormed :: "jsstring \<Rightarrow> jsstring" where
  "toWellFormed [] = []"
| "toWellFormed [c] = (if isHighSurrogate c \<or> isLowSurrogate c then [0xFFFD] else [c])"
| "toWellFormed (c # d # cs) =
     (if isHighSurrogate c \<and> isLowSurrogate d then c # d # toWellFormed cs
      else if isHighSurrogate c \<or> isLowSurrogate c then 0xFFFD # toWellFormed (d # cs)
      else c # toWellFormed (d # cs))"

text \<open>
  The three operations on \<open>book.json\<close> that can throw.
  \<open>fs.readFileSync(BOOK_JSON_PATH, 'utf8')\<close> throws when the file is missing and
  otherwise returns its text; \<open>JSON.parse(data)\<close> throws a SyntaxError on a text that
  does not parse; \<open>fs.writeFileSync(BOOK_JSON_PATH, JSON.stringify(books, null, 4),
  'utf8')\<close> throws when the environment refuses the write, and otherwise leaves a text
  that parses back to \<open>books\<close>.
\<close>

definition readFileSync_book_json :: "world \<Rightarrow> exn + json_file" where
  "readFileSync_book_json w =
     (case book_json w of Missing \<Rightarrow> Inl IOError | data \<Rightarrow> Inr data)"

definition JSON_parse :: "json_file \<Rightarrow> exn + json list" where
  "JSON_parse data = (case data of Holds books \<Rightarrow> Inr books | other \<Rightarrow> Inl SyntaxError)"

definition writeFileSync_book_json :: "json list \<Rightarrow> world \<Rightarrow> exn + world" where
  "writeFileSync_book_json books w =
     (if book_json_locked w then Inl IOError else Inr (w\<lparr>book_json := Holds books\<rparr>))"

text \<open>
  \<open>readBooks()\<close> as a call, which returns a value (\<open>Inr\<close>) or throws (\<open>Inl\<close>). The
  \<open>try\<close> block reads and parses; the \<open>catch\<close> block prints and returns the empty
  array.
\<close>

definition readBooks_try :: "world \<Rightarrow> exn + json list" where
  "readBooks_try w = bindE (readFileSync_book_json w) (\<lambda>data. JSON_parse data)"

definition readBooks_call :: "world \<Rightarrow> (exn + json list) \<times> world" where
  "readBooks_call w =
     (case readBooks_try w of
        Inr books \<Rightarrow> (Inr books, w)
      | Inl error \<Rightarrow> (Inr [], consoleError msg_read_failed w))"

text \<open>
  \<open>writeBooks(books)\<close> as a call: the \<open>try\<close> block writes and returns \<open>true\<close>; the
  \<open>catch\<close> block prints and returns \<open>false\<close>.
\<close>

definition writeBooks_call :: "json list \<Rightarrow> world \<Rightarrow> (exn + bool) \<times> world" where
  "writeBooks_call books w =
     (case writeFileSync_book_json books w of
        Inr w1 \<Rightarrow> (Inr True, w1)
      | Inl error \<Rightarrow> (Inr False, consoleError msg_write_failed w))"

text \<open>
  Neither call ever throws, whatever the world, so the handlers are written over what
  the calls return: \<open>readBooks\<close> and \<open>writeBooks\<close> are the returned value with the world
  after the call.
\<close>

definition readBooks :: "world \<Rightarrow> json list \<times> world" where
  "readBooks w =
     (case readBooks_call w of
        (Inr books, w1) \<Rightarrow> (books, w1)
      | (Inl error, w1) \<Rightarrow> ([], w1))"

definition writeBooks :: "json list \<Rightarrow> world \<Rightarrow> bool \<times> world" where
  "writeBooks books w =
     (case writeBooks_call books w of
        (Inr ok, w1) \<Rightarrow> (ok, w1)
      | (Inl error, w1) \<Rightarrow> (False, w1))"

definition existsSync :: "jsstring \<Rightarrow> world \<Rightarrow> bool" where
  "existsSync f w \<longleftrightarrow> files w f \<noteq> None"

text \<open>Reading a content file with the encoding \<open>'utf8'\<close>.\<close>

definition readFile :: "jsstring \<Rightarrow> world \<Rightarrow> exn + jsstring" where
  "readFile f w =
     (case files w f of
        None \<Rightarrow> Inl IOError
      | Some t \<Rightarrow> if io_fails w f then Inl IOError else Inr (toWellFormed t))"

text \<open>Writing a string to a content file with the encoding \<open>'utf8'\<close>.\<close>

definition writeFile :: "jsstring \<Rightarrow> jsstring \<Rightarrow> world \<Rightarrow> exn + world" where
  "writeFile f t w =
     (if io_fails w f then Inl IOError
      else Inr (w\<lparr>files := (files w)(f \<mapsto> toWellFormed t)\<rparr>))"

definition unlinkSync :: "jsstring \<Rightarrow> world \<Rightarrow> exn + world" where
  "unlinkSync f w =
     (case files w f of
        None \<Rightarrow> Inl IOError
      | Some t \<Rightarrow>
          if io_fails w f then Inl IOError else Inr (w\<lparr>files := (files w)(f := None)\<rparr>))"

text \<open>The template \<open>book_${n}.txt\<close>, the name of a content file in the directory.\<close>

definition bookFileName :: "jsnum \<Rightarrow> jsstring" where
  "bookFileName n = str ''book_'' @ numToString n @ str ''.txt''"

text \<open>The template \<open>This is book NO.${n}\<close>.\<close>

definition placeholder :: "jsnum \<Rightarrow> jsstring" where
  "placeholder n = str ''This is book NO.'' @ numToString n"

section \<open>Replies\<close>

text \<open>
  A handler ends the request with \<open>res.writeHead(status, ...)\<close> and
  \<open>res.end(JSON.stringify(body))\<close>: \<open>Reply status body\<close>. \<open>Uncaught e\<close> is an exception
  that no \<open>try\<close> of the handler encloses. \<open>StaticFile\<close> stands for the static file
  service, which is not modelled.
\<close>

datatype outcome =
    Reply nat json
  | EmptyReply nat
  | StaticFile
  | Uncaught exn

definition msg_added :: jsstring where
  "msg_added = [0x4E66, 0x7C4D, 0x6DFB, 0x52A0, 0x6210, 0x529F]"

definition msg_save_failed :: jsstring where
  "msg_save_failed = [0x4FDD, 0x5B58, 0x5931, 0x8D25]"

definition msg_invalid_json :: jsstring where
  "msg_invalid_json = [0x65E0, 0x6548, 0x7684] @ str ''JSON'' @ [0x683C, 0x5F0F]"

definition msg_no_book :: jsstring where
  "msg_no_book = [0x4E66, 0x7C4D, 0x4E0D, 0x5B58, 0x5728]"

definition msg_deleted :: jsstring where
  "msg_deleted = [0x4E66, 0x7C4D, 0x5220, 0x9664, 0x6210, 0x529F]"

definition msg_delete_failed :: jsstring where
  "msg_delete_failed = [0x5220, 0x9664, 0x5931, 0x8D25]"

definition msg_updated :: jsstring where
  "msg_updated = [0x4E66, 0x7C4D, 0x66F4, 0x65B0, 0x6210, 0x529F]"

definition msg_update_failed :: jsstring where
  "msg_update_failed = [0x66F4, 0x65B0, 0x5931, 0x8D25]"

definition msg_no_file :: jsstring where
  "msg_no_file = [0x4E66, 0x7C4D, 0x6587, 0x4EF6, 0x4E0D, 0x5B58, 0x5728]"

definition msg_read_error :: jsstring where
  "msg_read_error = [0x8BFB, 0x53D6, 0x5931, 0x8D25]"

definition msg_no_file_async :: jsstring where
  "msg_no_file_async = [0x4E66, 0x7C4D, 0x6587, 0x4EF6, 0x4E0D, 0x5B58, 0x5728, 0x6216,
     0x8BFB, 0x53D6, 0x5931, 0x8D25]"

definition msg_content_empty :: jsstring where
  "msg_content_empty = [0x5185, 0x5BB9, 0x4E0D, 0x80FD, 0x4E3A, 0x7A7A]"

definition msg_write_error :: jsstring where
  "msg_write_error = [0x5199, 0x5165, 0x5931, 0x8D25]"

definition msg_written :: jsstring where
  "msg_written = [0x5185, 0x5BB9, 0x5199, 0x5165, 0x6210, 0x529F]"

definition msg_no_api :: jsstring where
  "msg_no_api = [0x63A5, 0x53E3, 0x4E0D, 0x5B58, 0x5728]"

text \<open>\<open>{ success: false, message: m }\<close>\<close>

definition failure :: "jsstring \<Rightarrow> json" where
  "failure m = JObj [(str ''success'', JBool False), (str ''message'', JStr m)]"

text \<open>\<open>{ success: false, errors }\<close>\<close>

definition invalid :: "jsstring list \<Rightarrow> json" where
  "invalid errors = JObj [(str ''success'', JBool False), (str ''errors'', JArr (map JStr errors))]"

text \<open>
  \<open>{ success: true, message: m, data: d }\<close>; \<open>JSON.stringify\<close> leaves a property out
  whose value is \<open>undefined\<close>.
\<close>

definition success :: "jsstring \<Rightarrow> json option \<Rightarrow> json" where
  "success m d =
     JObj ([(str ''success'', JBool True), (str ''message'', JStr m)] @
           (case d of None \<Rightarrow> [] | Some v \<Rightarrow> [(str ''data'', v)]))"

text \<open>\<open>{ success: true, mode: m, content: c }\<close>\<close>

definition contentReply :: "jsstring \<Rightarrow> jsstring \<Rightarrow> json" where
  "contentReply m c =
     JObj [(str ''success'', JBool True), (str ''mode'', JStr m), (str ''content'', JStr c)]"

section \<open>The handlers\<close>

text \<open>
  The body of a request is represented by what \<open>JSON.parse(body)\<close> makes of it: \<open>None\<close>
  when it throws.

  \<open>POST /api/books\<close>. One \<open>try\<close> encloses the whole handler, so the TypeError of the
  validator and a failed write of the content file both end in the reply for a body that
  is not JSON, the second one after \<open>book.json\<close> has been written.
\<close>

definition createBook :: "json option \<Rightarrow> world \<Rightarrow> outcome \<times> world" where
  "createBook body w =
     (case body of
        None \<Rightarrow> (Reply 400 (failure msg_invalid_json), w)
      | Some newBook \<Rightarrow>
          (case validateBookData newBook of
             Inl e \<Rightarrow> (Reply 400 (failure msg_invalid_json), w)
           | Inr errors \<Rightarrow>
               if length errors > 0 then (Reply 400 (invalid errors), w)
               else
                 let (books0, w1) = readBooks w;
                     books = books0 @ [newBook];
                     (ok, w2) = writeBooks books w1
                 in if ok then
                      let bookIndex = Num (int (length books));
                          bookFilePath = bookFileName bookIndex
                      in (case writeFile bookFilePath (placeholder bookIndex) w2 of
                            Inl e \<Rightarrow> (Reply 400 (failure msg_invalid_json), w2)
                          | Inr w3 \<Rightarrow> (Reply 201 (success msg_added (Some newBook)), w3))
                    else (Reply 500 (failure msg_save_failed), w2)))"

text \<open>
  \<open>DELETE /api/books/:index\<close>. No \<open>try\<close> encloses the handler: when \<open>unlinkSync\<close> throws,
  the exception is uncaught. \<open>deletedBook\<close> is \<open>undefined\<close> when \<open>splice\<close> removed nothing.
\<close>

definition deleteBook :: "jsnum \<Rightarrow> world \<Rightarrow> outcome \<times> world" where
  "deleteBook index w =
     (let (books, w1) = readBooks w
      in if jsLess index (Num 0) \<or> jsGreaterEq index (Num (int (length books)))
         then (Reply 404 (failure msg_no_book), w1)
         else
           let (removed, books') = splice1 index books;
               deletedBook = (case removed of [] \<Rightarrow> None | d # ds \<Rightarrow> Some d);
               (ok, w2) = writeBooks books' w1
           in if ok then
                let bookFilePath = bookFileName (jsPlus1 index)
                in (case (if existsSync bookFilePath w2 then unlinkSync bookFilePath w2
                          else Inr w2) of
                      Inl e \<Rightarrow> (Uncaught e, w2)
                    | Inr w3 \<Rightarrow> (Reply 200 (success msg_deleted deletedBook), w3))
              else (Reply 500 (failure msg_delete_failed), w2))"

text \<open>\<open>PUT /api/books/:index\<close>\<close>

definition updateBook :: "jsnum \<Rightarrow> json option \<Rightarrow> world \<Rightarrow> outcome \<times> world" where
  "updateBook index body w =
     (case body of
        None \<Rightarrow> (Reply 400 (failure msg_invalid_json), w)
      | Some updatedBook \<Rightarrow>
          (case validateBookData updatedBook of
             Inl e \<Rightarrow> (Reply 400 (failure msg_invalid_json), w)
           | Inr errors \<Rightarrow>
               if length errors > 0 then (Reply 400 (invalid errors), w)
               else
                 let (books, w1) = readBooks w
                 in if jsLess index (Num 0) \<or> jsGreaterEq index (Num (int (length books)))
                    then (Reply 404 (failure msg_no_book), w1)
                    else
                      let books' = assignAt index updatedBook books;
                          (ok, w2) = writeBooks books' w1
                      in if ok then (Reply 200 (success msg_updated (Some updatedBook)), w2)
                         else (Reply 500 (failure msg_update_failed), w2)))"

text \<open>\<open>GET /api/books\<close>\<close>

definition listBooks :: "world \<Rightarrow> outcome \<times> world" where
  "listBooks w =
     (let (books, w1) = readBooks w
      in (Reply 200 (JObj [(str ''success'', JBool True), (str ''data'', JArr books)]), w1))"

text \<open>
  \<open>query.mode\<close> as \<open>url.parse(req.url, true)\<close> gives it: absent, a string, or an array of
  strings when the parameter is repeated. \<open>query.mode || 'async'\<close> replaces an absent or
  empty mode.
\<close>

datatype qval = QAbsent | QStr jsstring | QArr "jsstring list"

definition modeOf :: "qval \<Rightarrow> qval" where
  "modeOf q =
     (case q of
        QAbsent \<Rightarrow> QStr (str ''async'')
      | QStr m \<Rightarrow> if m = [] then QStr (str ''async'') else QStr m
      | QArr ms \<Rightarrow> QArr ms)"

text \<open>
  \<open>GET /api/books/:index/content\<close>. The handler does not read \<open>book.json\<close>. The
  synchronous branch asks whether the file exists and then reads it inside a \<open>try\<close>; the
  asynchronous branch answers 404 to every error of \<open>fs.readFile\<close>.
\<close>

definition getContent :: "jsnum \<Rightarrow> qval \<Rightarrow> world \<Rightarrow> outcome \<times> world" where
  "getContent index q w =
     (let mode = modeOf q;
          bookFilePath = bookFileName (jsPlus1 index)
      in if mode = QStr (str ''sync'') then
           if \<not> existsSync bookFilePath w then (Reply 404 (failure msg_no_file), w)
           else (case readFile bookFilePath w of
                   Inl e \<Rightarrow> (Reply 500 (failure msg_read_error), w)
                 | Inr content \<Rightarrow> (Reply 200 (contentReply (str ''sync'') content), w))
         else (case readFile bookFilePath w of
                 Inl e \<Rightarrow> (Reply 404 (failure msg_no_file_async), w)
               | Inr d \<Rightarrow> (Reply 200 (contentReply (str ''async'') d), w)))"

text \<open>
  \<open>POST /api/books/:index/content\<close>. The handler does not read \<open>book.json\<close>.
  \<open>const { content } = JSON.parse(body)\<close> throws on \<open>null\<close>. \<open>fs.writeFile\<close> accepts a
  string; given a truthy JSON value of another type it throws a TypeError before
  writing (Node.js 14 and later do not coerce the data to a string), which the \<open>try\<close>
  of the handler catches.
\<close>

definition postContent :: "jsnum \<Rightarrow> json option \<Rightarrow> world \<Rightarrow> outcome \<times> world" where
  "postContent index body w =
     (let bookFilePath = bookFileName (jsPlus1 index)
      in case body of
           None \<Rightarrow> (Reply 400 (failure msg_invalid_json), w)
         | Some parsed \<Rightarrow>
             (case getProp parsed (str ''content'') of
                Inl e \<Rightarrow> (Reply 400 (failure msg_invalid_json), w)
              | Inr content \<Rightarrow>
                  if \<not> truthy content then (Reply 400 (failure msg_content_empty), w)
                  else
                    (case content of
                       Some (JStr text) \<Rightarrow>
                         (case writeFile bookFilePath text w of
                            Inl e \<Rightarrow> (Reply 500 (failure msg_write_error), w)
                          | Inr w1 \<Rightarrow>
                              (Reply 200 (JObj [(str ''success'', JBool True),
                                 (str ''message'', JStr msg_written)]), w1))
                     | other \<Rightarrow> (Reply 400 (failure msg_invalid_json), w))))"

section \<open>The server\<close>

record request =
  req_method :: jsstring
  req_pathname :: jsstring
  req_mode :: qval
  req_body :: "json option"

definition startsWith :: "jsstring \<Rightarrow> jsstring \<Rightarrow> bool" where
  "startsWith s p \<longleftrightarrow> take (length p) s = p"

text \<open>
  \<open>pathname.match(/^\/api\/books\/\d+\/content$/)\<close>: after the prefix comes a non-empty
  run of digits (the longest one, since the suffix starts with a slash) and then the
  suffix to the end.
\<close>

definition matchContent :: "jsstring \<Rightarrow> bool" where
  "matchContent pathname \<longleftrightarrow>
     startsWith pathname (str ''/api/books/'') \<and>
     (let rest = drop (length (str ''/api/books/'')) pathname;
          ds = takeWhile isDigit rest
      in ds \<noteq> [] \<and> drop (length ds) rest = str ''/content'')"

text \<open>The request listener: the routes in the order of the source.\<close>

definition server :: "request \<Rightarrow> world \<Rightarrow> outcome \<times> world" where
  "server req w =
     (let pathname = req_pathname req; method = req_method req
      in if method = str ''OPTIONS'' then (EmptyReply 200, w)
         else if \<not> startsWith pathname (str ''/api/'') then (StaticFile, w)
         else if pathname = str ''/api/books'' \<and> method = str ''POST''
           then createBook (req_body req) w
         else if startsWith pathname (str ''/api/books/'') \<and> method = str ''DELETE''
           then deleteBook (pathIndex pathname) w
         else if startsWith pathname (str ''/api/books/'') \<and> method = str ''PUT''
           then updateBook (pathIndex pathname) (req_body req) w
         else if pathname = str ''/api/books'' \<and> method = str ''GET''
           then listBooks w
         else if matchContent pathname \<and> method = str ''GET''
           then getContent (pathIndex pathname) (req_mode req) w
         else if matchContent pathname \<and> method = str ''POST''
           then postContent (pathIndex pathname) (req_body req) w
         else (Reply 404 (failure msg_no_api), w))"

section \<open>The rules of the validator, as the specification words them\<close>

text \<open>
  A candidate record is an object each of whose four fields is a string or is not given
  (absent, or one of the falsy values \<open>null\<close>, \<open>false\<close>, \<open>0\<close>). The specification's
  \<open>title\<close> is the field \<open>book\<close> of the program and its \<open>publishDate\<close> the field
  \<open>subDate\<close>.
\<close>

fun isText :: "json option \<Rightarrow> bool" where
  "isText (Some (JStr s)) = True"
| "isText v = (\<not> truthy v)"

definition candidateRecord :: "json \<Rightarrow> bool" where
  "candidateRecord data \<longleftrightarrow>
     (case data of
        JObj kvs \<Rightarrow>
          list_all (\<lambda>k. isText (map_of kvs k))
            [str ''book'', str ''author'', str ''summary'', str ''subDate'']
      | other \<Rightarrow> False)"

text \<open>A text rule is violated unless the field is a string that is non-empty after trim.\<close>

definition textViolated :: "json \<Rightarrow> jsstring \<Rightarrow> bool" where
  "textViolated data k \<longleftrightarrow>
     (case data of
        JObj kvs \<Rightarrow> (case map_of kvs k of Some (JStr s) \<Rightarrow> trim s = [] | other \<Rightarrow> True)
      | other \<Rightarrow> True)"

text \<open>The date rule is violated unless the field is a string of the pattern.\<close>

definition dateViolated :: "json \<Rightarrow> bool" where
  "dateViolated data \<longleftrightarrow>
     (case data of
        JObj kvs \<Rightarrow>
          (case map_of kvs (str ''subDate'') of Some (JStr s) \<Rightarrow> \<not> dateRe s | other \<Rightarrow> True)
      | other \<Rightarrow> True)"

text \<open>One message per violated rule, in the order title, author, summary, date.\<close>

definition violations :: "json \<Rightarrow> jsstring list" where
  "violations data =
     (if textViolated data (str ''book'') then [err_book] else []) @
     (if textViolated data (str ''author'') then [err_author] else []) @
     (if textViolated data (str ''summary'') then [err_summary] else []) @
     (if dateViolated data then [err_subDate] else [])"

section \<open>Observations\<close>

text \<open>
  A string is well-formed when it has no surrogate that stands alone: every high
  surrogate is followed by a low one, and a low one comes only there.
\<close>

fun wellFormed :: "jsstring \<Rightarrow> bool" where
  "wellFormed [] = True"
| "wellFormed [c] = (\<not> isHighSurrogate c \<and> \<not> isLowSurrogate c)"
| "wellFormed (c # d # cs) =
     (if isHighSurrogate c then isLowSurrogate d \<and> wellFormed cs
      else \<not> isLowSurrogate c \<and> wellFormed (d # cs))"

text \<open>The status code of a reply.\<close>

fun statusOf :: "outcome \<Rightarrow> nat option" where
  "statusOf (Reply s b) = Some s"
| "statusOf (EmptyReply s) = Some s"
| "statusOf StaticFile = None"
| "statusOf (Uncaught e) = None"

text \<open>\<open>Object.keys(v)\<close> of a parsed object; a value that is no object has no named field.\<close>

fun keysOf :: "json \<Rightarrow> jsstring list" where
  "keysOf (JObj kvs) = map fst kvs"
| "keysOf v = []"

text \<open>The paths of the requests for position \<open>n\<close>.\<close>

definition bookPath :: "nat \<Rightarrow> jsstring" where
  "bookPath n = str ''/api/books/'' @ digitsOf n"

definition contentPath :: "nat \<Rightarrow> jsstring" where
  "contentPath n = bookPath n @ str ''/content''"

section \<open>Example inputs\<close>

text \<open>Candidates, with the keys of the program and with the keys of the specification.\<close>

definition bookA :: json where
  "bookA = JObj [(str ''book'', JStr (str ''A'')), (str ''author'', JStr (str ''B'')),
     (str ''summary'', JStr (str ''C'')), (str ''subDate'', JStr (str ''2024-01-01''))]"

definition book2024_13_99 :: json where
  "book2024_13_99 = JObj [(str ''book'', JStr (str ''A'')), (str ''author'', JStr (str ''B'')),
     (str ''summary'', JStr (str ''C'')), (str ''subDate'', JStr (str ''2024-13-99''))]"

definition blankTitleBadDate :: json where
  "blankTitleBadDate = JObj [(str ''book'', JStr [0x20, 0x3000]),
     (str ''author'', JStr (str ''B'')), (str ''subDate'', JStr (str ''2024-1-01''))]"

definition bookWithIsbn :: json where
  "bookWithIsbn = JObj [(str ''book'', JStr (str ''A'')), (str ''author'', JStr (str ''B'')),
     (str ''summary'', JStr (str ''C'')), (str ''subDate'', JStr (str ''2024-01-01'')),
     (str ''isbn'', JNum 7)]"

definition specRecord :: json where
  "specRecord = JObj [(str ''title'', JStr (str ''A'')), (str ''author'', JStr (str ''B'')),
     (str ''summary'', JStr (str ''C'')), (str ''publishDate'', JStr (str ''2024-01-01''))]"

text \<open>The body \<open>{ content: t }\<close> of a content write.\<close>

definition contentBody :: "jsstring \<Rightarrow> json" where
  "contentBody t = JObj [(str ''content'', JStr t)]"

text \<open>
  Worlds: no \<open>book.json\<close> and a write that fails; no \<open>book.json\<close> and a write that
  succeeds; three records with their three content files; and the last one after the
  record at position 0 has been deleted.
\<close>

definition noFile :: world where
  "noFile = \<lparr>book_json = Missing, book_json_locked = True, files = (\<lambda>f. None),
     io_fails = (\<lambda>f. False), console = []\<rparr>"

definition missingWritable :: world where
  "missingWritable = \<lparr>book_json = Missing, book_json_locked = False, files = (\<lambda>f. None),
     io_fails = (\<lambda>f. False), console = []\<rparr>"

definition threeBooks :: world where
  "threeBooks = \<lparr>book_json = Holds [JStr (str ''r0''), JStr (str ''r1''), JStr (str ''r2'')],
     book_json_locked = False,
     files = [str ''book_1.txt'' \<mapsto> str ''c0'', str ''book_2.txt'' \<mapsto> str ''c1'',
              str ''book_3.txt'' \<mapsto> str ''c2''],
     io_fails = (\<lambda>f. False), console = []\<rparr>"

definition afterDelete0 :: world where
  "afterDelete0 = snd (deleteBook (Num 0) threeBooks)"

text \<open>The request \<open>DELETE /api/books/abc\<close>.\<close>

definition deleteAbc :: request where
  "deleteAbc = \<lparr>req_method = str ''DELETE'', req_pathname = str ''/api/books/abc'',
     req_mode = QAbsent, req_body = None\<rparr>"

section \<open>The calls on \<open>book.json\<close> and the passage through utf8\<close>

lemma readBooks_call_eq:
  "readBooks_call w =
     (case book_json w of
        Missing \<Rightarrow> (Inr [], consoleError msg_read_failed w)
      | Unparsable \<Rightarrow> (Inr [], consoleError msg_read_failed w)
      | Holds books \<Rightarrow> (Inr books, w))"
  by (simp add: readBooks_call_def readBooks_try_def readFileSync_book_json_def JSON_parse_def
      bindE_def split: json_file.splits)

lemma readBooks_eq:
  "readBooks w =
     (case book_json w of
        Missing \<Rightarrow> ([], consoleError msg_read_failed w)
      | Unparsable \<Rightarrow> ([], consoleError msg_read_failed w)
      | Holds books \<Rightarrow> (books, w))"
  by (simp add: readBooks_def readBooks_call_eq split: json_file.splits)

lemma writeBooks_call_eq:
  "writeBooks_call books w =
     (if book_json_locked w then (Inr False, consoleError msg_write_failed w)
      else (Inr True, w\<lparr>book_json := Holds books\<rparr>))"
  by (simp add: writeBooks_call_def writeFileSync_book_json_def)

lemma writeBooks_eq:
  "writeBooks books w =
     (if book_json_locked w then (False, consoleError msg_write_failed w)
      else (True, w\<lparr>book_json := Holds books\<rparr>))"
  by (simp add: writeBooks_def writeBooks_call_eq)

lemma toWellFormed_plain: "list_all (\<lambda>c. c < 0xD800) s \<Longrightarrow> toWellFormed s = s"
  by (induction s rule: toWellFormed.induct)
    (simp_all add: isHighSurrogate_def isLowSurrogate_def)

lemma wellFormed_Cons:
  "\<not> isHighSurrogate x \<Longrightarrow> \<not> isLowSurrogate x \<Longrightarrow> wellFormed (x # ys) = wellFormed ys"
  by (cases ys) simp_all

lemma toWellFormed_id: "wellFormed s \<Longrightarrow> toWellFormed s = s"
  by (induction s rule: toWellFormed.induct) (auto split: if_splits)

lemma wellFormed_toWellFormed: "wellFormed (toWellFormed s)"
proof (induction s rule: toWellFormed.induct)
  case 1
  show ?case by simp
next
  case (2 c)
  show ?case by (simp add: isHighSurrogate_def isLowSurrogate_def)
next
  case (3 c d cs)
  have r: "\<not> isHighSurrogate 0xFFFD" "\<not> isLowSurrogate 0xFFFD"
    by (simp_all add: isHighSurrogate_def isLowSurrogate_def)
  from 3 show ?case
    by (auto simp: wellFormed_Cons r)
qed

lemma toWellFormed_twice: "toWellFormed (toWellFormed s) = toWellFormed s"
  by (rule toWellFormed_id) (rule wellFormed_toWellFormed)

lemma str_plain: "list_all (\<lambda>c. c < 0xD800) (str s)"
proof -
  have "of_char c < (0xD800 :: nat)" for c :: char
  proof -
    have "of_char c = (of_char c :: nat) mod 256"
      by (metis of_char_of char_of_char)
    moreover have "(of_char c :: nat) mod 256 < 256" by simp
    ultimately show ?thesis by linarith
  qed
  then show ?thesis by (simp add: str_def list_all_iff)
qed

lemma digitsOf_plain: "list_all (\<lambda>c. c < 0xD800) (digitsOf n)"
proof (induction n rule: digitsOf.induct)
  case (1 n)
  have m: "n mod 10 < 10" by simp
  show ?case
  proof (cases "n < 10")
    case True
    then show ?thesis by (simp add: digitsOf.simps [of n])
  next
    case False
    with 1 m show ?thesis by (simp add: digitsOf.simps [of n])
  qed
qed

lemma intToString_plain: "list_all (\<lambda>c. c < 0xD800) (intToString i)"
  by (simp add: intToString_def digitsOf_plain)

lemma numToString_plain: "list_all (\<lambda>c. c < 0xD800) (numToString n)"
  by (cases n) (simp_all add: intToString_plain str_plain)

lemma toWellFormed_placeholder: "toWellFormed (placeholder n) = placeholder n"
  by (rule toWellFormed_plain) (simp add: placeholder_def str_plain numToString_plain)

section \<open>Positions, paths and routes\<close>

lemma digitsOf_digits: "list_all isDigit (digitsOf n) \<and> digitsOf n \<noteq> []"
proof (induction n rule: digitsOf.induct)
  case (1 n)
  show ?case
  proof (cases "n < 10")
    case True
    then show ?thesis by (simp add: digitsOf.simps [of n] isDigit_def)
  next
    case False
    have "n mod 10 < 10" by simp
    then have "isDigit (48 + n mod 10)" unfolding isDigit_def by linarith
    with False 1 show ?thesis by (simp add: digitsOf.simps [of n])
  qed
qed

lemma digit_facts:
  assumes "isDigit c"
  shows "\<not> isWhiteSpace c" and "c \<noteq> 0x2D" and "c \<noteq> 0x2B" and "c \<noteq> 0x78" and "c \<noteq> 0x58"
    and "c \<noteq> 0x2F" and "isRadixDigit 10 c" and "digitValue c = c - 0x30"
  using assms by (auto simp: isDigit_def isWhiteSpace_def isRadixDigit_def digitValue_def)

lemma foldl_digitsOf: "foldl (\<lambda>a c. a * 10 + digitValue c) 0 (digitsOf n) = n"
proof (induction n rule: digitsOf.induct)
  case (1 n)
  show ?case
  proof (cases "n < 10")
    case True
    then show ?thesis by (simp add: digitsOf.simps [of n] digitValue_def)
  next
    case False
    have "n mod 10 < 10" by simp
    then have d: "digitValue (48 + n mod 10) = n mod 10"
      unfolding digitValue_def by simp
    from False 1 d show ?thesis by (simp add: digitsOf.simps [of n])
  qed
qed

lemma takeWhile_all: "list_all P xs \<Longrightarrow> takeWhile P xs = xs"
  by (induction xs) simp_all

lemma parseInt_digits:
  assumes "list_all isDigit s" and "s \<noteq> []"
  shows "parseInt s = Num (int (foldl (\<lambda>a c. a * 10 + digitValue c) 0 s))"
proof -
  from assms obtain c cs where s: "s = c # cs" by (cases s) auto
  with assms have c: "isDigit c" and cs: "list_all isDigit cs" by simp_all
  have t: "trimStart s = s" by (simp add: s trimStart_def digit_facts [OF c])
  have hex: "take 2 s \<noteq> [0x30, 0x78]" "take 2 s \<noteq> [0x30, 0x58]"
  proof -
    show "take 2 s \<noteq> [0x30, 0x78]"
    proof (cases cs)
      case Nil
      with s show ?thesis by simp
    next
      case (Cons d ds)
      with cs have "isDigit d" by simp
      from digit_facts(4) [OF this] s Cons show ?thesis by simp
    qed
    show "take 2 s \<noteq> [0x30, 0x58]"
    proof (cases cs)
      case Nil
      with s show ?thesis by simp
    next
      case (Cons d ds)
      with cs have "isDigit d" by simp
      from digit_facts(5) [OF this] s Cons show ?thesis by simp
    qed
  qed
  have sign: "take 1 s \<noteq> [0x2D]" "take 1 s \<noteq> [0x2B]"
    using digit_facts(2,3) [OF c] by (simp_all add: s)
  have "list_all (isRadixDigit 10) s"
    using assms(1) by (induction s) (simp_all add: digit_facts)
  then have z: "takeWhile (isRadixDigit 10) s = s" by (rule takeWhile_all)
  show ?thesis
    using assms(2) hex sign by (simp add: parseInt_def t z Let_def)
qed

lemma parseInt_digitsOf: "parseInt (digitsOf n) = Num (int n)"
  using digitsOf_digits [of n] by (simp add: parseInt_digits foldl_digitsOf)

lemma digitsOf_inj: "digitsOf n = digitsOf m \<Longrightarrow> n = m"
proof -
  assume "digitsOf n = digitsOf m"
  then have "parseInt (digitsOf n) = parseInt (digitsOf m)" by simp
  then show "n = m" by (simp add: parseInt_digitsOf)
qed

lemma bookFileName_inj:
  "bookFileName (Num (int n)) = bookFileName (Num (int m)) \<longleftrightarrow> n = m"
  by (auto simp: bookFileName_def intToString_def dest: digitsOf_inj)

lemma splitOn_no_sep: "sep \<notin> set xs \<Longrightarrow> splitOn sep xs = [xs]"
  by (induction xs) auto

lemma splitOn_append: "sep \<notin> set xs \<Longrightarrow> splitOn sep (xs @ sep # ys) = xs # splitOn sep ys"
  by (induction xs) auto

lemma digitsOf_no_slash: "0x2F \<notin> set (digitsOf n)"
proof
  assume "0x2F \<in> set (digitsOf n)"
  moreover have "\<forall>c \<in> set (digitsOf n). isDigit c"
    using digitsOf_digits [of n] by (simp add: list_all_iff)
  ultimately have "isDigit 0x2F" by blast
  then show False by (simp add: isDigit_def)
qed

lemma split_bookPath:
  "splitOn 0x2F (bookPath n) = [[], str ''api'', str ''books'', digitsOf n]"
proof -
  have "bookPath n = [] @ 0x2F # (str ''api'' @ 0x2F # (str ''books'' @ 0x2F # digitsOf n))"
    by (simp add: bookPath_def str_def)
  moreover have "0x2F \<notin> set (str ''api'')" "0x2F \<notin> set (str ''books'')"
    by (simp_all add: str_def)
  ultimately show ?thesis
    using digitsOf_no_slash [of n]
    by (simp only: splitOn_append splitOn_no_sep set_simps empty_iff not_False_eq_True)
qed

lemma split_contentPath:
  "splitOn 0x2F (contentPath n) = [[], str ''api'', str ''books'', digitsOf n, str ''content'']"
proof -
  have "contentPath n =
    [] @ 0x2F # (str ''api'' @ 0x2F # (str ''books'' @ 0x2F # (digitsOf n @ 0x2F # str ''content'')))"
    by (simp add: contentPath_def bookPath_def str_def)
  moreover have "0x2F \<notin> set (str ''api'')" "0x2F \<notin> set (str ''books'')"
    "0x2F \<notin> set (str ''content'')"
    by (simp_all add: str_def)
  ultimately show ?thesis
    using digitsOf_no_slash [of n]
    by (simp only: splitOn_append splitOn_no_sep set_simps empty_iff not_False_eq_True)
qed

lemma pathIndex_bookPath: "pathIndex (bookPath n) = Num (int n)"
  by (simp add: pathIndex_def split_bookPath parseInt_digitsOf)

lemma pathIndex_contentPath: "pathIndex (contentPath n) = Num (int n)"
  by (simp add: pathIndex_def split_contentPath parseInt_digitsOf)

lemma takeWhile_stop:
  "list_all P xs \<Longrightarrow> \<not> P y \<Longrightarrow> takeWhile P (xs @ y # ys) = xs"
  by (induction xs) simp_all

lemma matchContent_contentPath: "matchContent (contentPath n)"
proof -
  have p: "contentPath n = str ''/api/books/'' @ (digitsOf n @ 0x2F # str ''content'')"
    by (simp add: contentPath_def bookPath_def str_def)
  have "\<not> isDigit 0x2F" by (simp add: isDigit_def)
  with digitsOf_digits [of n]
  have t: "takeWhile isDigit (digitsOf n @ 0x2F # str ''content'') = digitsOf n"
    by (simp add: takeWhile_stop)
  have s: "str ''/content'' = 0x2F # str ''content''" by (simp add: str_def)
  show ?thesis
    unfolding matchContent_def startsWith_def p
    using digitsOf_digits [of n] by (simp add: t s Let_def)
qed

lemma startsWith_bookPath: "startsWith (bookPath n) (str ''/api/books/'')"
  by (simp add: bookPath_def startsWith_def)

lemma startsWith_split:
  assumes "startsWith p q"
  shows "p = q @ drop (length q) p"
proof -
  have "p = take (length q) p @ drop (length q) p" by simp
  with assms show ?thesis by (simp add: startsWith_def)
qed

lemma startsWith_api:
  assumes "startsWith p (str ''/api/books/'')"
  shows "startsWith p (str ''/api/'')" and "p \<noteq> str ''/api/books''"
proof -
  obtain r where p: "p = str ''/api/books/'' @ r"
    using startsWith_split [OF assms] by blast
  show "startsWith p (str ''/api/'')" by (simp add: p startsWith_def str_def)
  show "p \<noteq> str ''/api/books''" by (simp add: p str_def)
qed

lemma server_DELETE:
  assumes "req_method req = str ''DELETE''"
    and "startsWith (req_pathname req) (str ''/api/books/'')"
  shows "server req w = deleteBook (pathIndex (req_pathname req)) w"
proof -
  have "str ''DELETE'' \<noteq> str ''OPTIONS''" by (simp add: str_def)
  with assms startsWith_api [OF assms(2)] show ?thesis
    by (simp add: server_def Let_def)
qed

lemma server_PUT:
  assumes "req_method req = str ''PUT''"
    and "startsWith (req_pathname req) (str ''/api/books/'')"
  shows "server req w = updateBook (pathIndex (req_pathname req)) (req_body req) w"
proof -
  have "str ''PUT'' \<noteq> str ''OPTIONS''" "str ''PUT'' \<noteq> str ''DELETE''"
    by (simp_all add: str_def)
  with assms startsWith_api [OF assms(2)] show ?thesis
    by (simp add: server_def Let_def)
qed

lemma server_POST_books:
  assumes "req_method req = str ''POST''" and "req_pathname req = str ''/api/books''"
  shows "server req w = createBook (req_body req) w"
proof -
  have "str ''POST'' \<noteq> str ''OPTIONS''" by (simp add: str_def)
  moreover have "startsWith (str ''/api/books'') (str ''/api/'')"
    by (simp add: startsWith_def str_def)
  ultimately show ?thesis using assms by (simp add: server_def Let_def)
qed

lemma server_GET_content:
  assumes "req_method req = str ''GET''" and "matchContent (req_pathname req)"
  shows "server req w = getContent (pathIndex (req_pathname req)) (req_mode req) w"
proof -
  have m: "str ''GET'' \<noteq> str ''OPTIONS''" "str ''GET'' \<noteq> str ''DELETE''"
    "str ''GET'' \<noteq> str ''PUT''" "str ''GET'' \<noteq> str ''POST''"
    by (simp_all add: str_def)
  from assms(2) have s: "startsWith (req_pathname req) (str ''/api/books/'')"
    by (simp add: matchContent_def)
  from m assms startsWith_api [OF s] show ?thesis by (simp add: server_def Let_def)
qed

lemma server_POST_content:
  assumes "req_method req = str ''POST''" and "matchContent (req_pathname req)"
  shows "server req w = postContent (pathIndex (req_pathname req)) (req_body req) w"
proof -
  have m: "str ''POST'' \<noteq> str ''OPTIONS''" "str ''POST'' \<noteq> str ''DELETE''"
    "str ''POST'' \<noteq> str ''PUT''" "str ''POST'' \<noteq> str ''GET''"
    by (simp_all add: str_def)
  from assms(2) have s: "startsWith (req_pathname req) (str ''/api/books/'')"
    by (simp add: matchContent_def)
  from m assms startsWith_api [OF s] show ?thesis by (simp add: server_def Let_def)
qed

text \<open>
  The requests of the interface reach the handlers with the position of their path: the
  index segment of a path printed from a position parses back to the position (in the
  exact integers of the model, which are the program's Numbers up to \<open>2^53\<close>).
\<close>

lemma server_routes:
  "server \<lparr>req_method = str ''DELETE'', req_pathname = bookPath n, req_mode = q, req_body = b\<rparr> w =
     deleteBook (Num (int n)) w"
  "server \<lparr>req_method = str ''PUT'', req_pathname = bookPath n, req_mode = q, req_body = b\<rparr> w =
     updateBook (Num (int n)) b w"
  "server \<lparr>req_method = str ''POST'', req_pathname = str ''/api/books'', req_mode = q, req_body = b\<rparr> w =
     createBook b w"
  "server \<lparr>req_method = str ''GET'', req_pathname = contentPath n, req_mode = q, req_body = b\<rparr> w =
     getContent (Num (int n)) q w"
  "server \<lparr>req_method = str ''POST'', req_pathname = contentPath n, req_mode = q, req_body = b\<rparr> w =
     postContent (Num (int n)) b w"
  by (simp_all add: server_DELETE server_PUT server_POST_books server_GET_content
      server_POST_content startsWith_bookPath matchContent_contentPath pathIndex_bookPath
      pathIndex_contentPath)

section \<open>The validator returns one message per violated rule\<close>

lemma trim_Nil: "trim [] = []"
  by (simp add: trim_def trimStart_def)

lemma isBlank_text:
  assumes "isText (map_of kvs k)"
  shows "isBlank (JObj kvs) k = Inr (textViolated (JObj kvs) k)"
proof (cases "map_of kvs k")
  case None
  then show ?thesis by (simp add: isBlank_def bindE_def textViolated_def)
next
  case (Some v)
  show ?thesis
  proof (cases v)
    case (JStr s)
    with Some show ?thesis
      by (cases "s = []") (simp_all add: isBlank_def bindE_def textViolated_def trim_Nil)
  qed (use assms Some in \<open>simp_all add: isBlank_def bindE_def textViolated_def\<close>)
qed

lemma isBadDate_text:
  assumes "isText (map_of kvs (str ''subDate''))"
  shows "isBadDate (JObj kvs) = Inr (dateViolated (JObj kvs))"
proof (cases "map_of kvs (str ''subDate'')")
  case None
  then show ?thesis by (simp add: isBadDate_def bindE_def dateViolated_def)
next
  case (Some v)
  show ?thesis
  proof (cases v)
    case (JStr s)
    have "dateRe [] = False" by (simp add: dateRe_def)
    with Some JStr show ?thesis
      by (cases "s = []") (simp_all add: isBadDate_def bindE_def dateViolated_def testDate_def)
  qed (use assms Some in \<open>simp_all add: isBadDate_def bindE_def dateViolated_def\<close>)
qed

lemma validate_2024_13_99: "validateBookData book2024_13_99 = Inr []"
  by (simp add: book2024_13_99_def validateBookData_def isBlank_def isBadDate_def bindE_def
      str_def testDate_def dateRe_def isDigit_def trim_def trimStart_def isWhiteSpace_def)

lemma validate_bookA: "validateBookData bookA = Inr []"
  by (simp add: bookA_def validateBookData_def isBlank_def isBadDate_def bindE_def
      str_def testDate_def dateRe_def isDigit_def trim_def trimStart_def isWhiteSpace_def)

lemma validate_blankTitleBadDate:
  "validateBookData blankTitleBadDate = Inr [err_book, err_summary, err_subDate]"
  by (simp add: blankTitleBadDate_def validateBookData_def isBlank_def isBadDate_def bindE_def
      str_def testDate_def dateRe_def isDigit_def trim_def trimStart_def isWhiteSpace_def)

text \<open>
  C3. For every candidate record, \<open>validateBookData\<close> returns exactly one message per
  violated rule and no other, in the order title (\<open>book\<close>), author, summary, date
  (\<open>subDate\<close>), going through all four rules whatever the earlier ones found. A text
  field is violated when it is not a string that is non-empty after trim; the date is
  checked against the pattern alone, so the date \<open>2024-13-99\<close> is no violation.
\<close>

theorem validateBookData_violations:
  "(candidateRecord data \<longrightarrow> validateBookData data = Inr (violations data)) \<and>
   validateBookData book2024_13_99 = Inr []"
proof (intro conjI impI)
  assume c: "candidateRecord data"
  then obtain kvs where d: "data = JObj kvs"
    by (cases data) (auto simp: candidateRecord_def)
  from c d have t: "isText (map_of kvs (str ''book''))" "isText (map_of kvs (str ''author''))"
    "isText (map_of kvs (str ''summary''))" "isText (map_of kvs (str ''subDate''))"
    by (simp_all add: candidateRecord_def)
  show "validateBookData data = Inr (violations data)"
    unfolding d validateBookData_def violations_def
    by (simp add: isBlank_text [OF t(1)] isBlank_text [OF t(2)] isBlank_text [OF t(3)]
        isBadDate_text [OF t(4)] bindE_def Let_def)
next
  show "validateBookData book2024_13_99 = Inr []" by (rule validate_2024_13_99)
qed

theorem validateBookData_violations_witness:
  "candidateRecord blankTitleBadDate \<and>
   validateBookData blankTitleBadDate = Inr [err_book, err_summary, err_subDate] \<and>
   validateBookData book2024_13_99 = Inr []"
proof -
  have c: "candidateRecord blankTitleBadDate"
    by (simp add: blankTitleBadDate_def candidateRecord_def str_def)
  have v: "violations blankTitleBadDate = [err_book, err_summary, err_subDate]"
    by (simp add: blankTitleBadDate_def violations_def textViolated_def dateViolated_def
        str_def trim_def trimStart_def isWhiteSpace_def dateRe_def)
  from validateBookData_violations [of blankTitleBadDate] c v show ?thesis by simp
qed

text \<open>
  Outside the candidate records: a name that is truthy and not a string makes the
  validator throw, as does the candidate \<open>null\<close>; the handlers answer the exception like
  a body that is not JSON. A date given as an array of one string is tested through its
  text and passes; a date given as an object is a violation, unless the object has an own
  \<open>toString\<close> property, on which the test throws.
\<close>

lemma validateBookData_throws:
  assumes "getProp data (str ''book'') = Inr (Some v)" and "truthy (Some v)"
    and "callTrim (Some v) = Inl TypeError"
  shows "validateBookData data = Inl TypeError"
  using assms by (simp add: validateBookData_def isBlank_def bindE_def)

lemma validateBookData_examples:
  "validateBookData JNull = Inl TypeError"
  "validateBookData (JObj [(str ''book'', JNum 5)]) = Inl TypeError"
  "validateBookData (JObj [(str ''book'', JStr (str ''A'')), (str ''author'', JStr (str ''B'')),
     (str ''summary'', JStr (str ''C'')), (str ''subDate'', JArr [JStr (str ''2024-01-01'')])]) =
   Inr []"
  "validateBookData (JObj [(str ''book'', JStr (str ''A'')), (str ''author'', JStr (str ''B'')),
     (str ''summary'', JStr (str ''C'')), (str ''subDate'', JObj [])]) =
   Inr [err_subDate]"
  "validateBookData (JObj [(str ''book'', JStr (str ''A'')), (str ''author'', JStr (str ''B'')),
     (str ''summary'', JStr (str ''C'')),
     (str ''subDate'', JObj [(str ''toString'', JStr (str ''2024-01-01''))])]) =
   Inl TypeError"
  by (simp_all add: validateBookData_def isBlank_def isBadDate_def bindE_def
      str_def testDate_def dateRe_def isDigit_def trim_def trimStart_def isWhiteSpace_def)

section \<open>Reading and writing the collection never throws\<close>

lemma readBooks_Holds: "book_json w = Holds books \<Longrightarrow> readBooks w = (books, w)"
  by (simp add: readBooks_eq)

lemma readBooks_fields:
  "book_json_locked (snd (readBooks w)) = book_json_locked w"
  "files (snd (readBooks w)) = files w"
  "io_fails (snd (readBooks w)) = io_fails w"
  "book_json (snd (readBooks w)) = book_json w"
  by (simp_all add: readBooks_eq consoleError_def split: json_file.splits)

lemma createBook_locked:
  assumes "validateBookData c = Inr []" and "book_json_locked w"
  shows "createBook (Some c) w =
    (Reply 500 (failure msg_save_failed), consoleError msg_write_failed (snd (readBooks w)))"
proof -
  obtain books0 w1 where r: "readBooks w = (books0, w1)" by (cases "readBooks w")
  from readBooks_fields(1) [of w] r assms(2) have "book_json_locked w1" by simp
  with assms(1) show ?thesis
    by (simp add: createBook_def writeBooks_eq r Let_def)
qed

text \<open>
  C8. The call of \<open>readBooks\<close> never throws and the call of \<open>writeBooks\<close> never
  throws. When \<open>book.json\<close> is missing, \<open>readFileSync\<close> throws in the \<open>try\<close> block, and
  when its text does not parse, \<open>JSON.parse\<close> does; in both cases the \<open>catch\<close> block
  prints the failure with \<open>console.error\<close> and the call returns the empty collection, so
  that the list request answers 200 with the empty collection. When \<open>writeFileSync\<close>
  throws, the \<open>catch\<close> block prints the failure and the call returns \<open>false\<close>, on which
  the handler that called it answers 500.
\<close>

theorem readBooks_writeBooks_recover:
  "fst (readBooks_call w) \<noteq> Inl e \<and>
   fst (readBooks_call w) = Inr (fst (readBooks w)) \<and>
   fst (writeBooks_call books w) \<noteq> Inl e \<and>
   fst (writeBooks_call books w) = Inr (fst (writeBooks books w)) \<and>
   (book_json w = Missing \<longrightarrow> readBooks_try w = Inl IOError) \<and>
   (book_json w = Unparsable \<longrightarrow> readBooks_try w = Inl SyntaxError) \<and>
   (book_json w = Missing \<or> book_json w = Unparsable \<longrightarrow>
      fst (readBooks_call w) = Inr [] \<and>
      fst (readBooks w) = [] \<and>
      console (snd (readBooks w)) = console w @ [msg_read_failed] \<and>
      fst (listBooks w) =
        Reply 200 (JObj [(str ''success'', JBool True), (str ''data'', JArr [])]) \<and>
      console (snd (listBooks w)) = console w @ [msg_read_failed]) \<and>
   (book_json_locked w \<longrightarrow>
      writeFileSync_book_json books w = Inl IOError \<and>
      fst (writeBooks_call books w) = Inr False \<and>
      fst (writeBooks books w) = False \<and>
      console (snd (writeBooks books w)) = console w @ [msg_write_failed] \<and>
      (validateBookData c = Inr [] \<longrightarrow>
         fst (createBook (Some c) w) =
           Reply 500 (JObj [(str ''success'', JBool False),
                            (str ''message'', JStr msg_save_failed)])))"
proof (intro conjI impI)
  show "fst (readBooks_call w) \<noteq> Inl e"
    by (simp add: readBooks_call_eq split: json_file.splits)
  show "fst (readBooks_call w) = Inr (fst (readBooks w))"
    by (simp add: readBooks_call_eq readBooks_eq split: json_file.splits)
  show "fst (writeBooks_call books w) \<noteq> Inl e"
    by (simp add: writeBooks_call_eq)
  show "fst (writeBooks_call books w) = Inr (fst (writeBooks books w))"
    by (simp add: writeBooks_call_eq writeBooks_eq)
next
  assume "book_json w = Missing"
  then show "readBooks_try w = Inl IOError"
    by (simp add: readBooks_try_def readFileSync_book_json_def bindE_def)
next
  assume "book_json w = Unparsable"
  then show "readBooks_try w = Inl SyntaxError"
    by (simp add: readBooks_try_def readFileSync_book_json_def JSON_parse_def bindE_def)
next
  assume "book_json w = Missing \<or> book_json w = Unparsable"
  then show "fst (readBooks_call w) = Inr []" and "fst (readBooks w) = []"
    and "console (snd (readBooks w)) = console w @ [msg_read_failed]"
    and "fst (listBooks w) =
        Reply 200 (JObj [(str ''success'', JBool True), (str ''data'', JArr [])])"
    and "console (snd (listBooks w)) = console w @ [msg_read_failed]"
    by (auto simp: readBooks_call_eq readBooks_eq listBooks_def consoleError_def)
next
  assume l: "book_json_locked w"
  then show "writeFileSync_book_json books w = Inl IOError"
    by (simp add: writeFileSync_book_json_def)
  from l show "fst (writeBooks_call books w) = Inr False"
    by (simp add: writeBooks_call_eq)
  from l show "fst (writeBooks books w) = False"
    by (simp add: writeBooks_eq)
  from l show "console (snd (writeBooks books w)) = console w @ [msg_write_failed]"
    by (simp add: writeBooks_eq consoleError_def)
  show "fst (createBook (Some c) w) =
      Reply 500 (JObj [(str ''success'', JBool False), (str ''message'', JStr msg_save_failed)])"
    if "validateBookData c = Inr []"
    using createBook_locked [OF that l] by (simp add: failure_def)
qed

theorem readBooks_writeBooks_recover_witness:
  "book_json noFile = Missing \<and> book_json_locked noFile \<and>
   readBooks_try noFile = Inl IOError \<and>
   fst (readBooks_call noFile) = Inr [] \<and>
   fst (readBooks noFile) = [] \<and>
   console (snd (readBooks noFile)) =
     [[0x8BFB, 0x53D6, 0x4E66, 0x7C4D, 0x6570, 0x636E, 0x5931, 0x8D25, 0x3A]] \<and>
   fst (listBooks noFile) =
     Reply 200 (JObj [(str ''success'', JBool True), (str ''data'', JArr [])]) \<and>
   fst (writeBooks_call [bookA] noFile) = Inr False \<and>
   fst (writeBooks [bookA] noFile) = False \<and>
   console (snd (writeBooks [bookA] noFile)) =
     [[0x5199, 0x5165, 0x4E66, 0x7C4D, 0x6570, 0x636E, 0x5931, 0x8D25, 0x3A]] \<and>
   fst (createBook (Some bookA) noFile) =
     Reply 500 (JObj [(str ''success'', JBool False),
                      (str ''message'', JStr [0x4FDD, 0x5B58, 0x5931, 0x8D25])])"
proof -
  have m: "book_json noFile = Missing" and l: "book_json_locked noFile"
    and c: "console noFile = []"
    by (simp_all add: noFile_def)
  from readBooks_writeBooks_recover [of noFile IOError "[bookA]" bookA] m l c validate_bookA
  show ?thesis
    by (simp add: msg_read_failed_def msg_write_failed_def msg_save_failed_def)
qed

section \<open>Deleting a record\<close>

lemma splice1_in_bounds:
  assumes "p < length xs"
  shows "splice1 (Num (int p)) xs = ([xs ! p], take p xs @ drop (Suc p) xs)"
proof -
  from assms have "drop p xs = xs ! p # drop (Suc p) xs"
    by (simp add: Cons_nth_drop_Suc)
  with assms show ?thesis by (simp add: splice1_def Let_def)
qed

lemma splice1_NaN: "splice1 NaN (x # xs) = ([x], xs)"
  by (simp add: splice1_def)

lemma remove_nth_before:
  "i < p \<Longrightarrow> p < length xs \<Longrightarrow> (take p xs @ drop (Suc p) xs) ! i = xs ! i"
  by (simp add: nth_append)

lemma remove_nth_after:
  "p \<le> i \<Longrightarrow> i < length xs - 1 \<Longrightarrow> p < length xs \<Longrightarrow> (take p xs @ drop (Suc p) xs) ! i = xs ! Suc i"
  by (simp add: nth_append min_def)

lemma unlink_step:
  assumes "files w f = None \<or> \<not> io_fails w f"
  shows "(if existsSync f w then unlinkSync f w else Inr w) = Inr (w\<lparr>files := (files w)(f := None)\<rparr>)"
proof (cases "files w f")
  case None
  then have "(files w)(f := None) = files w" by (simp add: fun_upd_idem)
  with None show ?thesis by (simp add: existsSync_def)
next
  case (Some t)
  with assms show ?thesis by (simp add: existsSync_def unlinkSync_def)
qed

lemma deleteBook_removes:
  assumes b: "book_json w = Holds books" and p: "p < length books"
    and l: "\<not> book_json_locked w"
    and f: "files w (bookFileName (Num (int p + 1))) = None \<or>
            \<not> io_fails w (bookFileName (Num (int p + 1)))"
  shows "deleteBook (Num (int p)) w =
     (Reply 200 (success msg_deleted (Some (books ! p))),
      w\<lparr>book_json := Holds (take p books @ drop (Suc p) books),
        files := (files w)(bookFileName (Num (int p + 1)) := None)\<rparr>)"
proof -
  let ?w2 = "w\<lparr>book_json := Holds (take p books @ drop (Suc p) books)\<rparr>"
  let ?f = "bookFileName (Num (int p + 1))"
  from f have "files ?w2 ?f = None \<or> \<not> io_fails ?w2 ?f" by simp
  from unlink_step [OF this]
  have u: "(if existsSync ?f ?w2 then unlinkSync ?f ?w2 else Inr ?w2) =
           Inr (?w2\<lparr>files := (files w)(?f := None)\<rparr>)" by simp
  show ?thesis
    using p l u
    by (simp add: deleteBook_def readBooks_Holds [OF b] splice1_in_bounds [OF p]
        writeBooks_eq Let_def)
qed

text \<open>
  C2. For every position \<open>p\<close> inside the collection, when the write of \<open>book.json\<close>
  succeeds and the content file can be removed, \<open>DELETE\<close> answers 200 with the record
  at \<open>p\<close>, stores the collection without that record (one shorter, the records before
  \<open>p\<close> in place, every later record one position down), and removes the content file
  \<open>book_(p+1).txt\<close>, named from the ordinal before the deletion; every other content
  file, and so the file that every other position names, is as it was.
\<close>

theorem deleteBook_in_bounds:
  assumes "book_json w = Holds books" and "p < length books"
    and "\<not> book_json_locked w"
    and "files w (bookFileName (Num (int p + 1))) = None \<or>
         \<not> io_fails w (bookFileName (Num (int p + 1)))"
  shows "deleteBook (Num (int p)) w =
     (Reply 200 (success msg_deleted (Some (books ! p))),
      w\<lparr>book_json := Holds (take p books @ drop (Suc p) books),
        files := (files w)(bookFileName (Num (int p + 1)) := None)\<rparr>) \<and>
    length (take p books @ drop (Suc p) books) = length books - 1 \<and>
    (\<forall>i. i < p \<longrightarrow> (take p books @ drop (Suc p) books) ! i = books ! i) \<and>
    (\<forall>i. p \<le> i \<and> i < length books - 1 \<longrightarrow>
       (take p books @ drop (Suc p) books) ! i = books ! Suc i) \<and>
    (\<forall>f. f \<noteq> bookFileName (Num (int p + 1)) \<longrightarrow>
       files (snd (deleteBook (Num (int p)) w)) f = files w f) \<and>
    (\<forall>q. q \<noteq> p \<longrightarrow>
       files (snd (deleteBook (Num (int p)) w)) (bookFileName (jsPlus1 (Num (int q)))) =
       files w (bookFileName (jsPlus1 (Num (int q)))))"
proof (intro conjI allI impI)
  show d: "deleteBook (Num (int p)) w =
     (Reply 200 (success msg_deleted (Some (books ! p))),
      w\<lparr>book_json := Holds (take p books @ drop (Suc p) books),
        files := (files w)(bookFileName (Num (int p + 1)) := None)\<rparr>)"
    using assms by (rule deleteBook_removes)
  show "length (take p books @ drop (Suc p) books) = length books - 1"
    using assms(2) by simp
  show "(take p books @ drop (Suc p) books) ! i = books ! i" if "i < p" for i
    using that assms(2) by (rule remove_nth_before)
  show "(take p books @ drop (Suc p) books) ! i = books ! Suc i"
    if "p \<le> i \<and> i < length books - 1" for i
    using that assms(2) by (simp add: remove_nth_after)
  show "files (snd (deleteBook (Num (int p)) w)) f = files w f"
    if "f \<noteq> bookFileName (Num (int p + 1))" for f
    using that by (simp add: d)
  show "files (snd (deleteBook (Num (int p)) w)) (bookFileName (jsPlus1 (Num (int q)))) =
       files w (bookFileName (jsPlus1 (Num (int q))))" if "q \<noteq> p" for q
  proof -
    from that have "Suc q \<noteq> Suc p" by simp
    then have "bookFileName (Num (int (Suc q))) \<noteq> bookFileName (Num (int (Suc p)))"
      by (simp only: bookFileName_inj not_False_eq_True)
    then have "bookFileName (Num (int q + 1)) \<noteq> bookFileName (Num (int p + 1))"
      by (simp add: add.commute)
    then show ?thesis by (simp add: d)
  qed
qed

lemma bookFileName_2: "bookFileName (Num 2) = str ''book_2.txt''"
  by (simp add: bookFileName_def intToString_def digitsOf.simps str_def)

theorem deleteBook_in_bounds_witness:
  "deleteBook (Num 1) threeBooks =
     (Reply 200 (success msg_deleted (Some (JStr (str ''r1'')))),
      threeBooks\<lparr>book_json := Holds [JStr (str ''r0''), JStr (str ''r2'')],
        files := (files threeBooks)(str ''book_2.txt'' := None)\<rparr>) \<and>
   files (snd (deleteBook (Num 1) threeBooks)) (str ''book_3.txt'') = Some (str ''c2'') \<and>
   files (snd (deleteBook (Num 1) threeBooks)) (str ''book_2.txt'') = None"
proof -
  have b: "book_json threeBooks = Holds [JStr (str ''r0''), JStr (str ''r1''), JStr (str ''r2'')]"
    and l: "\<not> book_json_locked threeBooks"
    and f: "files threeBooks (bookFileName (Num (int 1 + 1))) = None \<or>
            \<not> io_fails threeBooks (bookFileName (Num (int 1 + 1)))"
    by (simp_all add: threeBooks_def)
  have p: "1 < length [JStr (str ''r0''), JStr (str ''r1''), JStr (str ''r2'')]" by simp
  from deleteBook_in_bounds [OF b p l f] have
    "deleteBook (Num 1) threeBooks =
     (Reply 200 (success msg_deleted (Some (JStr (str ''r1'')))),
      threeBooks\<lparr>book_json := Holds [JStr (str ''r0''), JStr (str ''r2'')],
        files := (files threeBooks)(bookFileName (Num 2) := None)\<rparr>)"
    by simp
  then show ?thesis
    by (simp add: bookFileName_2) (simp add: threeBooks_def str_def)
qed

section \<open>Deleting with an index that is not a number\<close>

lemma bookFileName_NaN: "bookFileName NaN = str ''book_NaN.txt''"
  by (simp add: bookFileName_def str_def)

text \<open>
  C10. A \<open>DELETE\<close> request under \<open>/api/books/\<close> whose index segment \<open>parseInt\<close> turns
  into \<open>NaN\<close> (as in \<open>/api/books/abc\<close>) is not answered 404 on a non-empty collection:
  both comparisons of the bounds check are false for \<open>NaN\<close>, \<open>splice(NaN, 1)\<close> removes the
  record at position 0, and, the write of \<open>book.json\<close> succeeding, the reply is 200 with
  \<open>success: true\<close> and the removed first record as \<open>data\<close>.
\<close>

theorem delete_NaN_removes_first:
  assumes "req_method req = str ''DELETE''"
    and "startsWith (req_pathname req) (str ''/api/books/'')"
    and "pathIndex (req_pathname req) = NaN"
    and "book_json w = Holds (b # bs)"
    and "\<not> book_json_locked w"
    and "files w (str ''book_NaN.txt'') = None \<or> \<not> io_fails w (str ''book_NaN.txt'')"
  shows "\<not> jsLess NaN (Num 0) \<and> \<not> jsGreaterEq NaN (Num (int (length (b # bs)))) \<and>
    splice1 NaN (b # bs) = ([b], bs) \<and>
    server req w =
      (Reply 200 (JObj [(str ''success'', JBool True), (str ''message'', JStr msg_deleted),
                        (str ''data'', b)]),
       w\<lparr>book_json := Holds bs, files := (files w)(str ''book_NaN.txt'' := None)\<rparr>) \<and>
    statusOf (fst (server req w)) \<noteq> Some 404"
proof -
  let ?w2 = "w\<lparr>book_json := Holds bs\<rparr>"
  let ?f = "str ''book_NaN.txt''"
  from assms(6) have "files ?w2 ?f = None \<or> \<not> io_fails ?w2 ?f" by simp
  from unlink_step [OF this]
  have u: "(if existsSync ?f ?w2 then unlinkSync ?f ?w2 else Inr ?w2) =
           Inr (?w2\<lparr>files := (files w)(?f := None)\<rparr>)" by simp
  have d: "deleteBook NaN w =
      (Reply 200 (success msg_deleted (Some b)),
       w\<lparr>book_json := Holds bs, files := (files w)(?f := None)\<rparr>)"
    using assms(5) u
    by (simp add: deleteBook_def readBooks_Holds [OF assms(4)] splice1_NaN writeBooks_eq
        bookFileName_NaN Let_def)
  from server_DELETE [OF assms(1,2)] assms(3) have s: "server req w = deleteBook NaN w"
    by simp
  show ?thesis by (simp add: s d splice1_NaN success_def)
qed

lemma pathIndex_abc: "pathIndex (str ''/api/books/abc'') = NaN"
  by (simp add: pathIndex_def str_def parseInt_def trimStart_def isWhiteSpace_def
      isRadixDigit_def digitValue_def Let_def)

theorem delete_NaN_removes_first_witness:
  "req_pathname deleteAbc = str ''/api/books/abc'' \<and>
   server deleteAbc threeBooks =
      (Reply 200 (JObj [(str ''success'', JBool True),
                        (str ''message'', JStr [0x4E66, 0x7C4D, 0x5220, 0x9664, 0x6210, 0x529F]),
                        (str ''data'', JStr (str ''r0''))]),
       threeBooks\<lparr>book_json := Holds [JStr (str ''r1''), JStr (str ''r2'')],
         files := (files threeBooks)(str ''book_NaN.txt'' := None)\<rparr>) \<and>
   statusOf (fst (server deleteAbc threeBooks)) \<noteq> Some 404"
proof -
  have m: "req_method deleteAbc = str ''DELETE''"
    and pn: "req_pathname deleteAbc = str ''/api/books/abc''"
    by (simp_all add: deleteAbc_def)
  have sw: "startsWith (req_pathname deleteAbc) (str ''/api/books/'')"
    by (simp add: pn) (simp add: startsWith_def str_def)
  have i: "pathIndex (req_pathname deleteAbc) = NaN"
    by (simp add: pn pathIndex_abc)
  have b: "book_json threeBooks = Holds (JStr (str ''r0'') # [JStr (str ''r1''), JStr (str ''r2'')])"
    and l: "\<not> book_json_locked threeBooks"
    and f: "files threeBooks (str ''book_NaN.txt'') = None \<or>
            \<not> io_fails threeBooks (str ''book_NaN.txt'')"
    by (simp_all add: threeBooks_def)
  from delete_NaN_removes_first [OF m sw i b l f] pn show ?thesis
    by (simp add: msg_deleted_def)
qed

section \<open>Updating a record\<close>

lemma updateBook_invalid:
  assumes "validateBookData c = Inr errors" and "errors \<noteq> []"
  shows "updateBook index (Some c) w = (Reply 400 (invalid errors), w)"
  using assms by (simp add: updateBook_def)

lemma updateBook_out_of_range:
  assumes "validateBookData c = Inr []"
    and "i < 0 \<or> i \<ge> int (length (fst (readBooks w)))"
  shows "updateBook (Num i) (Some c) w = (Reply 404 (failure msg_no_book), snd (readBooks w))"
  using assms by (auto simp: updateBook_def Let_def split: prod.splits)

lemma updateBook_in_range:
  assumes "validateBookData c = Inr []" and "book_json w = Holds books"
    and "p < length books" and "\<not> book_json_locked w"
  shows "updateBook (Num (int p)) (Some c) w =
     (Reply 200 (success msg_updated (Some c)), w\<lparr>book_json := Holds (books[p := c])\<rparr>)"
  using assms
  by (simp add: updateBook_def readBooks_Holds Let_def assignAt_def writeBooks_eq)

text \<open>
  C4. \<open>PUT\<close> validates before it checks the bounds. Whatever the index, a candidate for
  which the validator returns violations is answered 400 with \<open>success: false\<close> and
  the full list of them as \<open>errors\<close>, and nothing is read or written; a candidate
  without violations at an integer position outside the collection is answered 404 with
  \<open>book.json\<close> and the content files as they were; at a position inside the collection,
  the write of \<open>book.json\<close> succeeding, the record at the position is replaced in place,
  the reply is 200 with the candidate as \<open>data\<close>, and no content file is touched.
\<close>

theorem updateBook_validates_first:
  "(validateBookData c = Inr errors \<and> errors \<noteq> [] \<longrightarrow>
      updateBook index (Some c) w =
        (Reply 400 (JObj [(str ''success'', JBool False),
                          (str ''errors'', JArr (map JStr errors))]), w)) \<and>
   (validateBookData c = Inr [] \<and> (i < 0 \<or> i \<ge> int (length (fst (readBooks w)))) \<longrightarrow>
      updateBook (Num i) (Some c) w =
        (Reply 404 (JObj [(str ''success'', JBool False), (str ''message'', JStr msg_no_book)]),
         snd (readBooks w)) \<and>
      book_json (snd (readBooks w)) = book_json w \<and> files (snd (readBooks w)) = files w) \<and>
   (validateBookData c = Inr [] \<and> book_json w = Holds books \<and> p < length books \<and>
    \<not> book_json_locked w \<longrightarrow>
      updateBook (Num (int p)) (Some c) w =
        (Reply 200 (JObj [(str ''success'', JBool True), (str ''message'', JStr msg_updated),
                          (str ''data'', c)]),
         w\<lparr>book_json := Holds (books[p := c])\<rparr>) \<and>
      length (books[p := c]) = length books \<and> books[p := c] ! p = c \<and>
      (\<forall>q. q \<noteq> p \<longrightarrow> books[p := c] ! q = books ! q) \<and>
      files (snd (updateBook (Num (int p)) (Some c) w)) = files w)"
proof (intro conjI impI allI)
  assume "validateBookData c = Inr errors \<and> errors \<noteq> []"
  then show "updateBook index (Some c) w =
        (Reply 400 (JObj [(str ''success'', JBool False),
                          (str ''errors'', JArr (map JStr errors))]), w)"
    by (simp add: updateBook_invalid invalid_def)
next
  assume "validateBookData c = Inr [] \<and> (i < 0 \<or> i \<ge> int (length (fst (readBooks w))))"
  then show "updateBook (Num i) (Some c) w =
        (Reply 404 (JObj [(str ''success'', JBool False), (str ''message'', JStr msg_no_book)]),
         snd (readBooks w))"
    by (simp add: updateBook_out_of_range failure_def)
next
  show "book_json (snd (readBooks w)) = book_json w" by (rule readBooks_fields)
  show "files (snd (readBooks w)) = files w" by (rule readBooks_fields)
next
  assume a: "validateBookData c = Inr [] \<and> book_json w = Holds books \<and> p < length books \<and>
    \<not> book_json_locked w"
  then show u: "updateBook (Num (int p)) (Some c) w =
        (Reply 200 (JObj [(str ''success'', JBool True), (str ''message'', JStr msg_updated),
                          (str ''data'', c)]),
         w\<lparr>book_json := Holds (books[p := c])\<rparr>)"
    by (simp add: updateBook_in_range success_def)
  show "length (books[p := c]) = length books" by simp
  from a show "books[p := c] ! p = c" by simp
  show "books[p := c] ! q = books ! q" if "q \<noteq> p" for q
    using that by simp
  show "files (snd (updateBook (Num (int p)) (Some c) w)) = files w" by (simp add: u)
qed

theorem updateBook_validates_first_witness:
  "updateBook (Num 7) (Some blankTitleBadDate) threeBooks =
     (Reply 400 (JObj [(str ''success'', JBool False),
        (str ''errors'', JArr [
           JStr [0x4E66, 0x7C4D, 0x540D, 0x79F0, 0x4E0D, 0x80FD, 0x4E3A, 0x7A7A],
           JStr [0x4E66, 0x7C4D, 0x7B80, 0x4ECB, 0x4E0D, 0x80FD, 0x4E3A, 0x7A7A],
           JStr ([0x53D1, 0x5E03, 0x65E5, 0x671F, 0x683C, 0x5F0F, 0x4E0D, 0x6B63, 0x786E,
                  0xFF0C, 0x5E94, 0x4E3A] @ str ''YYYY-MM-DD'')])]), threeBooks) \<and>
   updateBook (Num 7) (Some bookA) threeBooks =
     (Reply 404 (JObj [(str ''success'', JBool False),
        (str ''message'', JStr [0x4E66, 0x7C4D, 0x4E0D, 0x5B58, 0x5728])]), threeBooks) \<and>
   updateBook (Num 1) (Some bookA) threeBooks =
     (Reply 200 (JObj [(str ''success'', JBool True),
        (str ''message'', JStr [0x4E66, 0x7C4D, 0x66F4, 0x65B0, 0x6210, 0x529F]),
        (str ''data'', bookA)]),
      threeBooks\<lparr>book_json := Holds [JStr (str ''r0''), bookA, JStr (str ''r2'')]\<rparr>)"
proof -
  have b: "book_json threeBooks = Holds [JStr (str ''r0''), JStr (str ''r1''), JStr (str ''r2'')]"
    and l: "\<not> book_json_locked threeBooks"
    by (simp_all add: threeBooks_def)
  have r: "readBooks threeBooks = ([JStr (str ''r0''), JStr (str ''r1''), JStr (str ''r2'')], threeBooks)"
    by (rule readBooks_Holds [OF b])
  have e: "[err_book, err_summary, err_subDate] \<noteq> []" by simp
  from updateBook_validates_first [of blankTitleBadDate "[err_book, err_summary, err_subDate]"
      "Num 7" threeBooks 7 "[JStr (str ''r0''), JStr (str ''r1''), JStr (str ''r2'')]" 1]
    validate_blankTitleBadDate e
  have 1: "updateBook (Num 7) (Some blankTitleBadDate) threeBooks =
     (Reply 400 (JObj [(str ''success'', JBool False),
        (str ''errors'', JArr [JStr err_book, JStr err_summary, JStr err_subDate])]), threeBooks)"
    by simp
  from updateBook_validates_first [of bookA "[]" "Num 7" threeBooks 7
      "[JStr (str ''r0''), JStr (str ''r1''), JStr (str ''r2'')]" 1] validate_bookA b l r
  have 2: "updateBook (Num 7) (Some bookA) threeBooks =
     (Reply 404 (JObj [(str ''success'', JBool False), (str ''message'', JStr msg_no_book)]),
      threeBooks)"
    and 3: "updateBook (Num 1) (Some bookA) threeBooks =
     (Reply 200 (JObj [(str ''success'', JBool True), (str ''message'', JStr msg_updated),
        (str ''data'', bookA)]),
      threeBooks\<lparr>book_json := Holds [JStr (str ''r0''), bookA, JStr (str ''r2'')]\<rparr>)"
    by simp_all
  from 1 2 3 show ?thesis
    by (simp add: err_book_def err_summary_def err_subDate_def msg_no_book_def msg_updated_def)
qed

section \<open>Creating a record\<close>

lemma createBook_valid:
  assumes "validateBookData c = Inr []" and "\<not> book_json_locked w"
  shows "createBook (Some c) w =
    (case writeFile (bookFileName (Num (int (length (fst (readBooks w))) + 1)))
            (placeholder (Num (int (length (fst (readBooks w))) + 1)))
            ((snd (readBooks w))\<lparr>book_json := Holds (fst (readBooks w) @ [c])\<rparr>) of
       Inl e \<Rightarrow> (Reply 400 (failure msg_invalid_json),
                 (snd (readBooks w))\<lparr>book_json := Holds (fst (readBooks w) @ [c])\<rparr>)
     | Inr w3 \<Rightarrow> (Reply 201 (success msg_added (Some c)), w3))"
proof -
  obtain books0 w1 where r: "readBooks w = (books0, w1)" by (cases "readBooks w")
  from readBooks_fields(1) [of w] r assms(2) have "\<not> book_json_locked w1" by simp
  with assms(1) show ?thesis
    by (simp add: createBook_def writeBooks_eq r Let_def writeFile_def add.commute)
qed

text \<open>
  C5. For every candidate without violations, the write of \<open>book.json\<close> succeeding,
  \<open>POST /api/books\<close> stores the collection with the candidate appended: a following read
  gives a collection one longer whose last element is the candidate. \<open>book.json\<close> is
  written before the content file: when the write of the content file fails, the record
  is stored and no file is created. Otherwise the reply is 201 with the candidate as
  \<open>data\<close>, and the file \<open>book_n.txt\<close> holds the text \<open>This is book NO.n\<close>, where \<open>n\<close>,
  printed in decimal, is the new record's position plus one; it is the file that the
  content request of the new record's position reads.
\<close>

theorem createBook_appends:
  fixes c :: json and w :: world
  defines "books \<equiv> fst (readBooks w)"
  defines "n \<equiv> int (length (fst (readBooks w))) + 1"
  defines "w' \<equiv> snd (createBook (Some c) w)"
  assumes "validateBookData c = Inr []" and "\<not> book_json_locked w"
  shows "book_json w' = Holds (books @ [c]) \<and>
    fst (readBooks w') = books @ [c] \<and>
    length (fst (readBooks w')) = length books + 1 \<and>
    last (fst (readBooks w')) = c \<and>
    (io_fails w (str ''book_'' @ intToString n @ str ''.txt'') \<longrightarrow>
       fst (createBook (Some c) w) =
         Reply 400 (JObj [(str ''success'', JBool False),
                          (str ''message'', JStr msg_invalid_json)]) \<and>
       files w' = files w) \<and>
    (\<not> io_fails w (str ''book_'' @ intToString n @ str ''.txt'') \<longrightarrow>
       fst (createBook (Some c) w) =
         Reply 201 (JObj [(str ''success'', JBool True), (str ''message'', JStr msg_added),
                          (str ''data'', c)]) \<and>
       files w' = (files w)(str ''book_'' @ intToString n @ str ''.txt'' \<mapsto>
                              str ''This is book NO.'' @ intToString n) \<and>
       getContent (Num (int (length books))) (QStr (str ''sync'')) w' =
         (Reply 200 (JObj [(str ''success'', JBool True), (str ''mode'', JStr (str ''sync'')),
                           (str ''content'', JStr (str ''This is book NO.'' @ intToString n))]),
          w'))"
proof -
  let ?w2 = "(snd (readBooks w))\<lparr>book_json := Holds (books @ [c])\<rparr>"
  let ?f = "bookFileName (Num n)"
  let ?t = "placeholder (Num n)"
  have f: "?f = str ''book_'' @ intToString n @ str ''.txt''"
    by (simp add: bookFileName_def)
  have t: "?t = str ''This is book NO.'' @ intToString n"
    by (simp add: placeholder_def)
  have tw: "toWellFormed ?t = ?t" by (rule toWellFormed_placeholder)
  have cr: "createBook (Some c) w =
    (case writeFile ?f ?t ?w2 of
       Inl e \<Rightarrow> (Reply 400 (failure msg_invalid_json), ?w2)
     | Inr w3 \<Rightarrow> (Reply 201 (success msg_added (Some c)), w3))"
    unfolding books_def n_def using assms(4,5) by (rule createBook_valid)
  have io: "io_fails ?w2 = io_fails w" and fl: "files ?w2 = files w"
    by (simp_all add: readBooks_fields)
  have rd: "fst (readBooks v) = books @ [c]" if "book_json v = Holds (books @ [c])" for v
    using readBooks_Holds [OF that] by simp
  show ?thesis
  proof (cases "io_fails w ?f")
    case True
    then have w': "w' = ?w2"
      unfolding w'_def by (simp add: cr writeFile_def io)
    have b: "book_json w' = Holds (books @ [c])" by (simp add: w')
    have r: "fst (createBook (Some c) w) =
         Reply 400 (JObj [(str ''success'', JBool False),
                          (str ''message'', JStr msg_invalid_json)])"
      using True by (simp add: cr writeFile_def io failure_def)
    have fw: "files w' = files w" by (simp add: w' fl)
    from True show ?thesis
      unfolding f [symmetric] by (simp add: b rd [OF b] r fw)
  next
    case False
    then have w': "w' = ?w2\<lparr>files := (files w)(?f \<mapsto> ?t)\<rparr>"
      unfolding w'_def by (simp add: cr writeFile_def io fl tw)
    have b: "book_json w' = Holds (books @ [c])" by (simp add: w')
    have r: "fst (createBook (Some c) w) =
         Reply 201 (JObj [(str ''success'', JBool True), (str ''message'', JStr msg_added),
                          (str ''data'', c)])"
      using False by (simp add: cr writeFile_def io success_def)
    have fw: "files w' = (files w)(?f \<mapsto> ?t)" by (simp add: w')
    have m: "modeOf (QStr (str ''sync'')) = QStr (str ''sync'')"
      by (simp add: modeOf_def str_def)
    have "jsPlus1 (Num (int (length books))) = Num n"
      by (simp add: n_def books_def)
    then have g: "getContent (Num (int (length books))) (QStr (str ''sync'')) w' =
         (Reply 200 (contentReply (str ''sync'') ?t), w')"
      using False
      by (simp add: getContent_def m Let_def existsSync_def readFile_def fw tw)
        (simp add: w' readBooks_fields)
    from False show ?thesis
      unfolding f [symmetric] t [symmetric]
      by (simp add: b rd [OF b] r fw g contentReply_def)
  qed
qed

lemma intToString_1: "intToString 1 = str ''1''"
  by (simp add: intToString_def digitsOf.simps str_def)

lemma intToString_4: "intToString 4 = str ''4''"
  by (simp add: intToString_def digitsOf.simps str_def)

lemma bookFileName_1: "bookFileName (Num 1) = str ''book_1.txt''"
  by (simp add: bookFileName_def intToString_def digitsOf.simps str_def)

text \<open>
  On the empty collection: length 1, and the file of position 0 names ordinal 1. On a
  collection of three: the file of position 3 names ordinal 4; and when the content
  files cannot be written, the fourth record is stored all the same.
\<close>

theorem createBook_appends_witness:
  "fst (readBooks missingWritable) = [] \<and>
   fst (createBook (Some bookA) missingWritable) =
     Reply 201 (JObj [(str ''success'', JBool True),
       (str ''message'', JStr [0x4E66, 0x7C4D, 0x6DFB, 0x52A0, 0x6210, 0x529F]),
       (str ''data'', bookA)]) \<and>
   book_json (snd (createBook (Some bookA) missingWritable)) = Holds [bookA] \<and>
   length (fst (readBooks (snd (createBook (Some bookA) missingWritable)))) = 1 \<and>
   files (snd (createBook (Some bookA) missingWritable)) =
     (files missingWritable)(str ''book_1.txt'' \<mapsto> str ''This is book NO.1'') \<and>
   getContent (Num 0) (QStr (str ''sync'')) (snd (createBook (Some bookA) missingWritable)) =
     (Reply 200 (JObj [(str ''success'', JBool True), (str ''mode'', JStr (str ''sync'')),
                       (str ''content'', JStr (str ''This is book NO.1''))]),
      snd (createBook (Some bookA) missingWritable)) \<and>
   book_json (snd (createBook (Some bookA) threeBooks)) =
     Holds [JStr (str ''r0''), JStr (str ''r1''), JStr (str ''r2''), bookA] \<and>
   files (snd (createBook (Some bookA) threeBooks)) =
     (files threeBooks)(str ''book_4.txt'' \<mapsto> str ''This is book NO.4'') \<and>
   fst (createBook (Some bookA) (threeBooks\<lparr>io_fails := (\<lambda>f. True)\<rparr>)) =
     Reply 400 (JObj [(str ''success'', JBool False),
       (str ''message'', JStr ([0x65E0, 0x6548, 0x7684] @ str ''JSON'' @ [0x683C, 0x5F0F]))]) \<and>
   book_json (snd (createBook (Some bookA) (threeBooks\<lparr>io_fails := (\<lambda>f. True)\<rparr>))) =
     Holds [JStr (str ''r0''), JStr (str ''r1''), JStr (str ''r2''), bookA] \<and>
   files (snd (createBook (Some bookA) (threeBooks\<lparr>io_fails := (\<lambda>f. True)\<rparr>))) =
     files threeBooks"
proof -
  have r: "fst (readBooks missingWritable) = []"
    by (simp add: readBooks_eq missingWritable_def)
  have l: "\<not> book_json_locked missingWritable"
    and i: "\<not> io_fails missingWritable f" for f
    by (simp_all add: missingWritable_def)
  have r3: "fst (readBooks threeBooks) = [JStr (str ''r0''), JStr (str ''r1''), JStr (str ''r2'')]"
    by (simp add: readBooks_eq threeBooks_def)
  have l3: "\<not> book_json_locked threeBooks"
    and i3: "\<not> io_fails threeBooks f" for f
    by (simp_all add: threeBooks_def)
  have s1: "str ''book_'' @ str ''1'' @ str ''.txt'' = str ''book_1.txt''"
    "str ''This is book NO.'' @ str ''1'' = str ''This is book NO.1''"
    "str ''book_'' @ str ''4'' @ str ''.txt'' = str ''book_4.txt''"
    "str ''This is book NO.'' @ str ''4'' = str ''This is book NO.4''"
    by (simp_all add: str_def)
  from createBook_appends [OF validate_bookA l] r i
  have a: "fst (createBook (Some bookA) missingWritable) =
     Reply 201 (JObj [(str ''success'', JBool True), (str ''message'', JStr msg_added),
       (str ''data'', bookA)]) \<and>
   book_json (snd (createBook (Some bookA) missingWritable)) = Holds [bookA] \<and>
   length (fst (readBooks (snd (createBook (Some bookA) missingWritable)))) = 1 \<and>
   files (snd (createBook (Some bookA) missingWritable)) =
     (files missingWritable)(str ''book_1.txt'' \<mapsto> str ''This is book NO.1'') \<and>
   getContent (Num 0) (QStr (str ''sync'')) (snd (createBook (Some bookA) missingWritable)) =
     (Reply 200 (JObj [(str ''success'', JBool True), (str ''mode'', JStr (str ''sync'')),
                       (str ''content'', JStr (str ''This is book NO.1''))]),
      snd (createBook (Some bookA) missingWritable))"
    by (simp add: intToString_1 s1)
  from createBook_appends [OF validate_bookA l3] r3 i3
  have b: "book_json (snd (createBook (Some bookA) threeBooks)) =
     Holds [JStr (str ''r0''), JStr (str ''r1''), JStr (str ''r2''), bookA] \<and>
   files (snd (createBook (Some bookA) threeBooks)) =
     (files threeBooks)(str ''book_4.txt'' \<mapsto> str ''This is book NO.4'')"
    by (simp add: intToString_4 s1)
  have r4: "fst (readBooks (threeBooks\<lparr>io_fails := (\<lambda>f. True)\<rparr>)) =
      [JStr (str ''r0''), JStr (str ''r1''), JStr (str ''r2'')]"
    by (simp add: readBooks_eq threeBooks_def)
  have l4: "\<not> book_json_locked (threeBooks\<lparr>io_fails := (\<lambda>f. True)\<rparr>)"
    by (simp add: threeBooks_def)
  from createBook_appends [OF validate_bookA l4] r4
  have c: "fst (createBook (Some bookA) (threeBooks\<lparr>io_fails := (\<lambda>f. True)\<rparr>)) =
     Reply 400 (JObj [(str ''success'', JBool False), (str ''message'', JStr msg_invalid_json)]) \<and>
   book_json (snd (createBook (Some bookA) (threeBooks\<lparr>io_fails := (\<lambda>f. True)\<rparr>))) =
     Holds [JStr (str ''r0''), JStr (str ''r1''), JStr (str ''r2''), bookA] \<and>
   files (snd (createBook (Some bookA) (threeBooks\<lparr>io_fails := (\<lambda>f. True)\<rparr>))) =
     files threeBooks"
    by simp
  from a b c r show ?thesis by (simp add: msg_added_def msg_invalid_json_def)
qed

section \<open>Reading and writing the content of a record\<close>

lemma modeOf_sync: "modeOf (QStr (str ''sync'')) = QStr (str ''sync'')"
  by (simp add: modeOf_def str_def)

lemma postContent_writes:
  assumes "X \<noteq> []" and "getProp parsed (str ''content'') = Inr (Some (JStr X))"
    and "\<not> io_fails w (bookFileName (jsPlus1 p))"
  shows "postContent p (Some parsed) w =
     (Reply 200 (JObj [(str ''success'', JBool True), (str ''message'', JStr msg_written)]),
      w\<lparr>files := (files w)(bookFileName (jsPlus1 p) \<mapsto> toWellFormed X)\<rparr>)"
  using assms by (simp add: postContent_def writeFile_def Let_def)

lemma getContent_reads:
  assumes "files w (bookFileName (jsPlus1 p)) = Some X"
    and "\<not> io_fails w (bookFileName (jsPlus1 p))"
  shows "getContent p q w =
     (if modeOf q = QStr (str ''sync'')
      then (Reply 200 (contentReply (str ''sync'') (toWellFormed X)), w)
      else (Reply 200 (contentReply (str ''async'') (toWellFormed X)), w))"
  using assms by (simp add: getContent_def existsSync_def readFile_def Let_def)

lemma write_then_read:
  assumes "X \<noteq> []" and "getProp parsed (str ''content'') = Inr (Some (JStr X))"
    and "\<not> io_fails w (bookFileName (jsPlus1 p))"
  shows "getContent p q (snd (postContent p (Some parsed) w)) =
     (if modeOf q = QStr (str ''sync'')
      then (Reply 200 (contentReply (str ''sync'') (toWellFormed X)),
            snd (postContent p (Some parsed) w))
      else (Reply 200 (contentReply (str ''async'') (toWellFormed X)),
            snd (postContent p (Some parsed) w)))"
proof -
  let ?w1 = "w\<lparr>files := (files w)(bookFileName (jsPlus1 p) \<mapsto> toWellFormed X)\<rparr>"
  have w1: "snd (postContent p (Some parsed) w) = ?w1"
    by (simp add: postContent_writes [OF assms])
  have f: "files ?w1 (bookFileName (jsPlus1 p)) = Some (toWellFormed X)"
    and io: "\<not> io_fails ?w1 (bookFileName (jsPlus1 p))"
    using assms(3) by simp_all
  show ?thesis
    unfolding w1 by (simp only: getContent_reads [OF f io] toWellFormed_twice)
qed

text \<open>
  C7, as the code has it. For every index \<open>p\<close> and non-empty text \<open>X\<close>, when the content
  file can be written and read, the content write of \<open>X\<close> at \<open>p\<close> succeeds and the
  content read at \<open>p\<close> that follows returns, in the synchronous mode and in every other
  mode, \<open>X\<close> as it comes back from utf8: every surrogate that stands alone replaced by
  U+FFFD. For a well-formed \<open>X\<close> that is \<open>X\<close> itself. Both handlers name the file by the
  same function of the index, which for an index from 0 up to \<open>2^53 - 2\<close> is
  \<open>book_(p+1).txt\<close> with the ordinal printed in decimal.
\<close>

theorem content_round_trip:
  fixes w :: world and p :: jsnum and X :: jsstring and parsed :: json
  defines "w1 \<equiv> snd (postContent p (Some parsed) w)"
  assumes "X \<noteq> []" and "getProp parsed (str ''content'') = Inr (Some (JStr X))"
    and "\<not> io_fails w (bookFileName (jsPlus1 p))"
  shows "fst (postContent p (Some parsed) w) =
      Reply 200 (JObj [(str ''success'', JBool True), (str ''message'', JStr msg_written)]) \<and>
    getContent p (QStr (str ''sync'')) w1 =
      (Reply 200 (JObj [(str ''success'', JBool True), (str ''mode'', JStr (str ''sync'')),
                        (str ''content'', JStr (toWellFormed X))]), w1) \<and>
    (modeOf q \<noteq> QStr (str ''sync'') \<longrightarrow>
       getContent p q w1 =
         (Reply 200 (JObj [(str ''success'', JBool True), (str ''mode'', JStr (str ''async'')),
                           (str ''content'', JStr (toWellFormed X))]), w1)) \<and>
    (wellFormed X \<longrightarrow>
       getContent p (QStr (str ''sync'')) w1 =
         (Reply 200 (JObj [(str ''success'', JBool True), (str ''mode'', JStr (str ''sync'')),
                           (str ''content'', JStr X)]), w1) \<and>
       (modeOf q \<noteq> QStr (str ''sync'') \<longrightarrow>
          getContent p q w1 =
            (Reply 200 (JObj [(str ''success'', JBool True), (str ''mode'', JStr (str ''async'')),
                              (str ''content'', JStr X)]), w1))) \<and>
    (0 \<le> i \<and> i < 9007199254740991 \<and> p = Num i \<longrightarrow>
       files w1 (str ''book_'' @ digitsOf (nat (i + 1)) @ str ''.txt'') = Some (toWellFormed X))"
proof -
  have g: "getContent p q' w1 =
     (if modeOf q' = QStr (str ''sync'')
      then (Reply 200 (contentReply (str ''sync'') (toWellFormed X)), w1)
      else (Reply 200 (contentReply (str ''async'') (toWellFormed X)), w1))" for q'
    unfolding w1_def by (rule write_then_read [OF assms(2,3,4)])
  have 1: "fst (postContent p (Some parsed) w) =
      Reply 200 (JObj [(str ''success'', JBool True), (str ''message'', JStr msg_written)])"
    by (simp add: postContent_writes [OF assms(2,3,4)])
  have 2: "getContent p (QStr (str ''sync'')) w1 =
      (Reply 200 (JObj [(str ''success'', JBool True), (str ''mode'', JStr (str ''sync'')),
                        (str ''content'', JStr (toWellFormed X))]), w1)"
    by (simp add: g modeOf_sync contentReply_def)
  have 3: "getContent p q w1 =
         (Reply 200 (JObj [(str ''success'', JBool True), (str ''mode'', JStr (str ''async'')),
                           (str ''content'', JStr (toWellFormed X))]), w1)"
    if "modeOf q \<noteq> QStr (str ''sync'')"
    using that by (simp add: g contentReply_def)
  have 4: "files w1 (str ''book_'' @ digitsOf (nat (i + 1)) @ str ''.txt'') =
      Some (toWellFormed X)"
    if "0 \<le> i \<and> i < 9007199254740991 \<and> p = Num i"
  proof -
    from that have "bookFileName (jsPlus1 p) = str ''book_'' @ digitsOf (nat (i + 1)) @ str ''.txt''"
      by (simp add: bookFileName_def intToString_def)
    then show ?thesis
      unfolding w1_def using postContent_writes [OF assms(2,3,4)] by simp
  qed
  show ?thesis
  proof (intro conjI impI)
    assume "wellFormed X"
    then have x: "toWellFormed X = X" by (rule toWellFormed_id)
    from 2 x show "getContent p (QStr (str ''sync'')) w1 =
         (Reply 200 (JObj [(str ''success'', JBool True), (str ''mode'', JStr (str ''sync'')),
                           (str ''content'', JStr X)]), w1)" by simp
    show "getContent p q w1 =
            (Reply 200 (JObj [(str ''success'', JBool True), (str ''mode'', JStr (str ''async'')),
                              (str ''content'', JStr X)]), w1)"
      if "modeOf q \<noteq> QStr (str ''sync'')"
      using 3 [OF that] x by simp
  qed (use 1 2 3 4 in simp_all)
qed

lemma bookFileName_3: "bookFileName (Num 3) = str ''book_3.txt''"
  by (simp add: bookFileName_def intToString_def digitsOf.simps str_def)

theorem content_round_trip_witness:
  "fst (postContent (Num 2) (Some (contentBody (str ''X''))) threeBooks) =
      Reply 200 (JObj [(str ''success'', JBool True),
        (str ''message'', JStr [0x5185, 0x5BB9, 0x5199, 0x5165, 0x6210, 0x529F])]) \<and>
   fst (getContent (Num 2) (QStr (str ''sync''))
         (snd (postContent (Num 2) (Some (contentBody (str ''X''))) threeBooks))) =
      Reply 200 (JObj [(str ''success'', JBool True), (str ''mode'', JStr (str ''sync'')),
                       (str ''content'', JStr (str ''X''))]) \<and>
   fst (getContent (Num 2) QAbsent
         (snd (postContent (Num 2) (Some (contentBody (str ''X''))) threeBooks))) =
      Reply 200 (JObj [(str ''success'', JBool True), (str ''mode'', JStr (str ''async'')),
                       (str ''content'', JStr (str ''X''))]) \<and>
   files (snd (postContent (Num 2) (Some (contentBody (str ''X''))) threeBooks))
      (str ''book_3.txt'') = Some (str ''X'')"
proof -
  have x: "str ''X'' \<noteq> []" by (simp add: str_def)
  have g: "getProp (contentBody (str ''X'')) (str ''content'') = Inr (Some (JStr (str ''X'')))"
    by (simp add: contentBody_def)
  have io: "\<not> io_fails threeBooks (bookFileName (jsPlus1 (Num 2)))"
    by (simp add: threeBooks_def)
  have m: "modeOf QAbsent \<noteq> QStr (str ''sync'')" by (simp add: modeOf_def str_def)
  have wf: "wellFormed (str ''X'')"
    by (simp add: str_def isHighSurrogate_def isLowSurrogate_def)
  have tw: "toWellFormed (str ''X'') = str ''X''"
    by (rule toWellFormed_plain) (rule str_plain)
  have n: "str ''book_'' @ digitsOf (nat (2 + 1)) @ str ''.txt'' = str ''book_3.txt''"
    by (simp add: digitsOf.simps str_def)
  from content_round_trip [OF x g io, of QAbsent 2] m wf tw n show ?thesis
    by (simp add: msg_written_def)
qed

text \<open>
  C7 as stated fails for a text that is not well-formed. The high surrogate U+D800
  alone is a non-empty content, which a JSON body can carry; the write succeeds, and
  the read that follows returns U+FFFD in both modes, not the text that was written.
\<close>

theorem content_round_trip_counterexample:
  "[0xD800] \<noteq> ([] :: jsstring) \<and>
   fst (postContent (Num 2) (Some (contentBody [0xD800])) threeBooks) =
      Reply 200 (JObj [(str ''success'', JBool True), (str ''message'', JStr msg_written)]) \<and>
   fst (getContent (Num 2) (QStr (str ''sync''))
         (snd (postContent (Num 2) (Some (contentBody [0xD800])) threeBooks))) =
      Reply 200 (JObj [(str ''success'', JBool True), (str ''mode'', JStr (str ''sync'')),
                       (str ''content'', JStr [0xFFFD])]) \<and>
   fst (getContent (Num 2) QAbsent
         (snd (postContent (Num 2) (Some (contentBody [0xD800])) threeBooks))) =
      Reply 200 (JObj [(str ''success'', JBool True), (str ''mode'', JStr (str ''async'')),
                       (str ''content'', JStr [0xFFFD])]) \<and>
   JStr [0xFFFD] \<noteq> JStr [0xD800]"
proof -
  have x: "[0xD800] \<noteq> ([] :: jsstring)" by simp
  have g: "getProp (contentBody [0xD800]) (str ''content'') = Inr (Some (JStr [0xD800]))"
    by (simp add: contentBody_def)
  have io: "\<not> io_fails threeBooks (bookFileName (jsPlus1 (Num 2)))"
    by (simp add: threeBooks_def)
  have m: "modeOf QAbsent \<noteq> QStr (str ''sync'')" by (simp add: modeOf_def str_def)
  have t: "toWellFormed [0xD800] = [0xFFFD]"
    by (simp add: isHighSurrogate_def)
  from postContent_writes [OF x g io] write_then_read [OF x g io, of "QStr (str ''sync'')"]
    write_then_read [OF x g io, of QAbsent] m
  show ?thesis
    by (simp add: t modeOf_sync contentReply_def isHighSurrogate_def)
qed

text \<open>
  C9. For every index, a content write whose \<open>content\<close> is the empty string is answered
  400 with the message that the content must not be empty, and nothing is written: the
  files are as they were. The reply differs from the reply to a failed write, which is
  500 with another message.
\<close>

theorem empty_content_rejected:
  "(getProp parsed (str ''content'') = Inr (Some (JStr [])) \<longrightarrow>
      postContent p (Some parsed) w = (Reply 400 (failure msg_content_empty), w)) \<and>
   (X \<noteq> [] \<and> getProp parsed' (str ''content'') = Inr (Some (JStr X)) \<and>
    io_fails w (bookFileName (jsPlus1 p)) \<longrightarrow>
      postContent p (Some parsed') w = (Reply 500 (failure msg_write_error), w)) \<and>
   Reply 400 (failure msg_content_empty) \<noteq> Reply 500 (failure msg_write_error)"
  by (simp add: postContent_def writeFile_def Let_def)

theorem empty_content_rejected_witness:
  "postContent (Num 2) (Some (contentBody [])) threeBooks =
     (Reply 400 (failure msg_content_empty), threeBooks) \<and>
   files (snd (postContent (Num 2) (Some (contentBody [])) threeBooks)) (str ''book_3.txt'') =
     Some (str ''c2'') \<and>
   postContent (Num 2) (Some (contentBody (str ''X'')))
     (threeBooks\<lparr>io_fails := (\<lambda>f. True)\<rparr>) =
     (Reply 500 (failure msg_write_error), threeBooks\<lparr>io_fails := (\<lambda>f. True)\<rparr>)"
proof -
  have g: "getProp (contentBody []) (str ''content'') = Inr (Some (JStr []))"
    by (simp add: contentBody_def)
  have x: "str ''X'' \<noteq> []" by (simp add: str_def)
  have g': "getProp (contentBody (str ''X'')) (str ''content'') = Inr (Some (JStr (str ''X'')))"
    by (simp add: contentBody_def)
  have f: "files threeBooks (str ''book_3.txt'') = Some (str ''c2'')"
    by (simp add: threeBooks_def str_def)
  from empty_content_rejected [of "contentBody []" "Num 2" threeBooks "str ''X''"
      "contentBody (str ''X'')"] g
  have 1: "postContent (Num 2) (Some (contentBody [])) threeBooks =
     (Reply 400 (failure msg_content_empty), threeBooks)" by simp
  from empty_content_rejected [of "contentBody []" "Num 2" "threeBooks\<lparr>io_fails := (\<lambda>f. True)\<rparr>"
      "str ''X''" "contentBody (str ''X'')"] x g'
  have 2: "postContent (Num 2) (Some (contentBody (str ''X'')))
     (threeBooks\<lparr>io_fails := (\<lambda>f. True)\<rparr>) =
     (Reply 500 (failure msg_write_error), threeBooks\<lparr>io_fails := (\<lambda>f. True)\<rparr>)" by simp
  from 1 2 f show ?thesis by simp
qed

section \<open>The bounds check\<close>

lemma deleteBook_out_of_range:
  assumes "i < 0 \<or> i \<ge> int (length (fst (readBooks w)))"
  shows "deleteBook (Num i) w = (Reply 404 (failure msg_no_book), snd (readBooks w))"
  using assms by (auto simp: deleteBook_def Let_def split: prod.splits)

lemma deleteBook_in_range_status:
  assumes "0 \<le> i" and "i < int (length (fst (readBooks w)))"
  shows "statusOf (fst (deleteBook (Num i) w)) \<noteq> Some 404"
proof -
  obtain books w1 where r: "readBooks w = (books, w1)" by (cases "readBooks w")
  obtain removed books' where s: "splice1 (Num i) books = (removed, books')"
    by (cases "splice1 (Num i) books")
  obtain ok w2 where wr: "writeBooks books' w1 = (ok, w2)" by (cases "writeBooks books' w1")
  from assms r show ?thesis
    by (simp add: deleteBook_def Let_def s wr split: sum.splits)
qed

lemma updateBook_in_range_status:
  assumes "0 \<le> i" and "i < int (length (fst (readBooks w)))"
  shows "statusOf (fst (updateBook (Num i) body w)) \<noteq> Some 404"
proof -
  obtain books w1 where r: "readBooks w = (books, w1)" by (cases "readBooks w")
  from assms r show ?thesis
    by (simp add: updateBook_def Let_def writeBooks_eq split: option.splits sum.splits)
qed

lemma getContent_sync_404:
  "statusOf (fst (getContent index (QStr (str ''sync'')) w)) = Some 404 \<longleftrightarrow>
   files w (bookFileName (jsPlus1 index)) = None"
  by (simp add: getContent_def modeOf_sync existsSync_def readFile_def Let_def
      split: option.splits)

lemma getContent_async_404:
  assumes "modeOf q \<noteq> QStr (str ''sync'')"
  shows "statusOf (fst (getContent index q w)) = Some 404 \<longleftrightarrow>
   files w (bookFileName (jsPlus1 index)) = None \<or> io_fails w (bookFileName (jsPlus1 index))"
  using assms by (simp add: getContent_def readFile_def Let_def split: option.splits)

lemma postContent_never_404: "statusOf (fst (postContent index body w)) \<noteq> Some 404"
  by (simp add: postContent_def writeFile_def Let_def
      split: option.splits sum.splits json.splits)

text \<open>
  C1, as the code has it. \<open>DELETE\<close>, and \<open>PUT\<close> with a candidate without violations,
  check an integer position against the collection: a position below 0 or not below the
  length is answered 404 and \<open>book.json\<close> and the content files are as they were, and no
  position inside the collection is answered 404. The two content handlers do not read
  the collection: the content read answers 404 exactly when the file \<open>book_(p+1).txt\<close>
  does not exist (synchronous mode) or cannot be read (every other mode), and the
  content write never answers 404.
\<close>

theorem bounds_check_by_handler:
  "((i < 0 \<or> i \<ge> int (length (fst (readBooks w)))) \<longrightarrow>
      deleteBook (Num i) w = (Reply 404 (failure msg_no_book), snd (readBooks w)) \<and>
      (validateBookData c = Inr [] \<longrightarrow>
         updateBook (Num i) (Some c) w = (Reply 404 (failure msg_no_book), snd (readBooks w))) \<and>
      book_json (snd (readBooks w)) = book_json w \<and> files (snd (readBooks w)) = files w) \<and>
   (0 \<le> i \<and> i < int (length (fst (readBooks w))) \<longrightarrow>
      statusOf (fst (deleteBook (Num i) w)) \<noteq> Some 404 \<and>
      statusOf (fst (updateBook (Num i) body w)) \<noteq> Some 404) \<and>
   (statusOf (fst (getContent index (QStr (str ''sync'')) w)) = Some 404 \<longleftrightarrow>
      files w (bookFileName (jsPlus1 index)) = None) \<and>
   (modeOf q \<noteq> QStr (str ''sync'') \<longrightarrow>
      (statusOf (fst (getContent index q w)) = Some 404 \<longleftrightarrow>
       files w (bookFileName (jsPlus1 index)) = None \<or>
       io_fails w (bookFileName (jsPlus1 index)))) \<and>
   statusOf (fst (postContent index body w)) \<noteq> Some 404"
proof (intro conjI impI)
  assume o: "i < 0 \<or> i \<ge> int (length (fst (readBooks w)))"
  then show "deleteBook (Num i) w = (Reply 404 (failure msg_no_book), snd (readBooks w))"
    by (rule deleteBook_out_of_range)
  show "updateBook (Num i) (Some c) w = (Reply 404 (failure msg_no_book), snd (readBooks w))"
    if "validateBookData c = Inr []"
    using that o by (rule updateBook_out_of_range)
  show "book_json (snd (readBooks w)) = book_json w" by (rule readBooks_fields)
  show "files (snd (readBooks w)) = files w" by (rule readBooks_fields)
next
  assume "0 \<le> i \<and> i < int (length (fst (readBooks w)))"
  then show "statusOf (fst (deleteBook (Num i) w)) \<noteq> Some 404"
    and "statusOf (fst (updateBook (Num i) body w)) \<noteq> Some 404"
    by (simp_all add: deleteBook_in_range_status updateBook_in_range_status)
next
  show "statusOf (fst (getContent index (QStr (str ''sync'')) w)) = Some 404 \<longleftrightarrow>
      files w (bookFileName (jsPlus1 index)) = None"
    by (rule getContent_sync_404)
next
  assume "modeOf q \<noteq> QStr (str ''sync'')"
  then show "statusOf (fst (getContent index q w)) = Some 404 \<longleftrightarrow>
       files w (bookFileName (jsPlus1 index)) = None \<or>
       io_fails w (bookFileName (jsPlus1 index))"
    by (rule getContent_async_404)
next
  show "statusOf (fst (postContent index body w)) \<noteq> Some 404"
    by (rule postContent_never_404)
qed

theorem bounds_check_by_handler_witness:
  "deleteBook (Num 3) threeBooks = (Reply 404 (failure msg_no_book), threeBooks) \<and>
   updateBook (Num 3) (Some bookA) threeBooks = (Reply 404 (failure msg_no_book), threeBooks) \<and>
   deleteBook (Num (- 1)) threeBooks = (Reply 404 (failure msg_no_book), threeBooks) \<and>
   statusOf (fst (deleteBook (Num 2) threeBooks)) \<noteq> Some 404 \<and>
   statusOf (fst (updateBook (Num 2) (Some bookA) threeBooks)) \<noteq> Some 404 \<and>
   statusOf (fst (getContent (Num 3) (QStr (str ''sync'')) threeBooks)) = Some 404 \<and>
   statusOf (fst (getContent (Num 3) QAbsent threeBooks)) = Some 404"
proof -
  have b: "book_json threeBooks = Holds [JStr (str ''r0''), JStr (str ''r1''), JStr (str ''r2'')]"
    by (simp add: threeBooks_def)
  have r: "readBooks threeBooks = ([JStr (str ''r0''), JStr (str ''r1''), JStr (str ''r2'')], threeBooks)"
    by (rule readBooks_Holds [OF b])
  have n4: "bookFileName (jsPlus1 (Num 3)) = str ''book_4.txt''"
    by (simp add: bookFileName_def intToString_def digitsOf.simps str_def)
  have f4: "files threeBooks (str ''book_4.txt'') = None"
    by (simp add: threeBooks_def str_def)
  have m: "modeOf QAbsent \<noteq> QStr (str ''sync'')" by (simp add: modeOf_def str_def)
  from bounds_check_by_handler [of 3 threeBooks bookA "Some bookA" "Num 3" QAbsent]
    validate_bookA r n4 f4 m
  have 1: "deleteBook (Num 3) threeBooks = (Reply 404 (failure msg_no_book), threeBooks)"
    and 2: "updateBook (Num 3) (Some bookA) threeBooks = (Reply 404 (failure msg_no_book), threeBooks)"
    and 3: "statusOf (fst (getContent (Num 3) (QStr (str ''sync'')) threeBooks)) = Some 404"
    and 4: "statusOf (fst (getContent (Num 3) QAbsent threeBooks)) = Some 404"
    by simp_all
  from bounds_check_by_handler [of "- 1" threeBooks bookA "Some bookA" "Num 3" QAbsent] r
  have 5: "deleteBook (Num (- 1)) threeBooks = (Reply 404 (failure msg_no_book), threeBooks)"
    by simp
  from bounds_check_by_handler [of 2 threeBooks bookA "Some bookA" "Num 3" QAbsent] r
  have 6: "statusOf (fst (deleteBook (Num 2) threeBooks)) \<noteq> Some 404"
    and 7: "statusOf (fst (updateBook (Num 2) (Some bookA) threeBooks)) \<noteq> Some 404"
    by simp_all
  from 1 2 3 4 5 6 7 show ?thesis by simp
qed

text \<open>
  C1 as stated fails for the content handlers. After \<open>DELETE\<close> of position 0 in a
  collection of three, two records remain and position 2 is out of range; the content
  read at position 2 still answers 200 with the text of \<open>book_3.txt\<close>, in both modes, and
  a content write at position 7 answers 200.
\<close>

theorem content_out_of_range_counterexample:
  "fst (readBooks afterDelete0) = [JStr (str ''r1''), JStr (str ''r2'')] \<and>
   int (length (fst (readBooks afterDelete0))) \<le> 2 \<and>
   fst (getContent (Num 2) (QStr (str ''sync'')) afterDelete0) =
     Reply 200 (contentReply (str ''sync'') (str ''c2'')) \<and>
   fst (getContent (Num 2) QAbsent afterDelete0) =
     Reply 200 (contentReply (str ''async'') (str ''c2'')) \<and>
   fst (postContent (Num 7) (Some (contentBody (str ''X''))) afterDelete0) =
     Reply 200 (JObj [(str ''success'', JBool True), (str ''message'', JStr msg_written)])"
proof -
  have b: "book_json threeBooks = Holds [JStr (str ''r0''), JStr (str ''r1''), JStr (str ''r2'')]"
    and l: "\<not> book_json_locked threeBooks"
    and f: "files threeBooks (bookFileName (Num (int 0 + 1))) = None \<or>
            \<not> io_fails threeBooks (bookFileName (Num (int 0 + 1)))"
    by (simp_all add: threeBooks_def)
  have p: "0 < length [JStr (str ''r0''), JStr (str ''r1''), JStr (str ''r2'')]" by simp
  from deleteBook_removes [OF b p l f]
  have a: "afterDelete0 = threeBooks\<lparr>book_json := Holds [JStr (str ''r1''), JStr (str ''r2'')],
        files := (files threeBooks)(str ''book_1.txt'' := None)\<rparr>"
    by (simp add: afterDelete0_def bookFileName_1)
  have r: "readBooks afterDelete0 = ([JStr (str ''r1''), JStr (str ''r2'')], afterDelete0)"
    by (rule readBooks_Holds) (simp add: a)
  have f3: "files afterDelete0 (bookFileName (jsPlus1 (Num 2))) = Some (str ''c2'')"
    by (simp add: a bookFileName_3) (simp add: threeBooks_def str_def)
  have io: "\<not> io_fails afterDelete0 f" for f
    by (simp add: a threeBooks_def)
  have m: "modeOf QAbsent \<noteq> QStr (str ''sync'')" by (simp add: modeOf_def str_def)
  have x: "str ''X'' \<noteq> []" by (simp add: str_def)
  have g: "getProp (contentBody (str ''X'')) (str ''content'') = Inr (Some (JStr (str ''X'')))"
    by (simp add: contentBody_def)
  have t: "toWellFormed (str ''c2'') = str ''c2''"
    by (rule toWellFormed_plain) (rule str_plain)
  show ?thesis
    using getContent_reads [OF f3 io, of "QStr (str ''sync'')"] getContent_reads [OF f3 io, of QAbsent]
      postContent_writes [OF x g io, of "Num 7"] m
    by (simp add: r modeOf_sync t)
qed

section \<open>The keys of a stored record\<close>

lemma validate_no_violation:
  assumes "validateBookData c = Inr []"
  shows "isBlank c (str ''book'') = Inr False" and "isBlank c (str ''author'') = Inr False"
    and "isBlank c (str ''summary'') = Inr False" and "isBadDate c = Inr False"
  using assms
  by (auto simp: validateBookData_def bindE_def Let_def split: sum.splits if_splits)

lemma getProp_key:
  assumes "getProp c k = Inr (Some v)"
  shows "k \<in> set (keysOf c)"
proof (cases c)
  case (JObj kvs)
  with assms have "map_of kvs k = Some v" by simp
  then have "(k, v) \<in> set kvs" by (rule map_of_SomeD)
  then have "k \<in> fst ` set kvs" by force
  with JObj show ?thesis by simp
qed (use assms in simp_all)

lemma isBlank_key:
  assumes "isBlank c k = Inr False"
  shows "k \<in> set (keysOf c)"
proof -
  from assms obtain v where g: "getProp c k = Inr v" and t: "truthy v"
    by (auto simp: isBlank_def bindE_def split: sum.splits if_splits)
  from t obtain x where "v = Some x" by (cases v) auto
  with g show ?thesis by (simp add: getProp_key)
qed

lemma isBadDate_key:
  assumes "isBadDate c = Inr False"
  shows "str ''subDate'' \<in> set (keysOf c)"
proof -
  from assms obtain v where g: "getProp c (str ''subDate'') = Inr v" and t: "truthy v"
    by (auto simp: isBadDate_def bindE_def split: sum.splits if_splits)
  from t obtain x where "v = Some x" by (cases v) auto
  with g show ?thesis by (simp add: getProp_key)
qed

lemma validate_reads_four:
  assumes "getProp c (str ''book'') = getProp d (str ''book'')"
    and "getProp c (str ''author'') = getProp d (str ''author'')"
    and "getProp c (str ''summary'') = getProp d (str ''summary'')"
    and "getProp c (str ''subDate'') = getProp d (str ''subDate'')"
  shows "validateBookData c = validateBookData d"
  using assms by (simp add: validateBookData_def isBlank_def isBadDate_def)

text \<open>
  C6, as the code has it. The validator reads the four fields \<open>book\<close>, \<open>author\<close>,
  \<open>summary\<close> and \<open>subDate\<close> and nothing else of the candidate. A candidate without
  violations is an object that has these four keys, and \<open>POST\<close> and \<open>PUT\<close> store the
  candidate itself, with every key and value it came with: \<open>POST\<close> as the last record,
  \<open>PUT\<close> at the position.
\<close>

theorem stored_record_is_candidate:
  "(getProp c (str ''book'') = getProp d (str ''book'') \<and>
    getProp c (str ''author'') = getProp d (str ''author'') \<and>
    getProp c (str ''summary'') = getProp d (str ''summary'') \<and>
    getProp c (str ''subDate'') = getProp d (str ''subDate'') \<longrightarrow>
      validateBookData c = validateBookData d) \<and>
   (validateBookData c = Inr [] \<longrightarrow>
      set [str ''book'', str ''author'', str ''summary'', str ''subDate''] \<subseteq> set (keysOf c) \<and>
      (\<not> book_json_locked w \<longrightarrow>
         book_json (snd (createBook (Some c) w)) = Holds (fst (readBooks w) @ [c]) \<and>
         (book_json w = Holds books \<and> p < length books \<longrightarrow>
            book_json (snd (updateBook (Num (int p)) (Some c) w)) = Holds (books[p := c]))))"
proof (intro conjI impI)
  assume a: "getProp c (str ''book'') = getProp d (str ''book'') \<and>
    getProp c (str ''author'') = getProp d (str ''author'') \<and>
    getProp c (str ''summary'') = getProp d (str ''summary'') \<and>
    getProp c (str ''subDate'') = getProp d (str ''subDate'')"
  show "validateBookData c = validateBookData d"
    by (rule validate_reads_four) (simp_all add: a)
next
  assume v: "validateBookData c = Inr []"
  from validate_no_violation [OF v]
  show "set [str ''book'', str ''author'', str ''summary'', str ''subDate''] \<subseteq> set (keysOf c)"
    by (simp add: isBlank_key isBadDate_key)
  assume l: "\<not> book_json_locked w"
  have "createBook (Some c) w =
    (case writeFile (bookFileName (Num (int (length (fst (readBooks w))) + 1)))
            (placeholder (Num (int (length (fst (readBooks w))) + 1)))
            ((snd (readBooks w))\<lparr>book_json := Holds (fst (readBooks w) @ [c])\<rparr>) of
       Inl e \<Rightarrow> (Reply 400 (failure msg_invalid_json),
                 (snd (readBooks w))\<lparr>book_json := Holds (fst (readBooks w) @ [c])\<rparr>)
     | Inr w3 \<Rightarrow> (Reply 201 (success msg_added (Some c)), w3))"
    using v l by (rule createBook_valid)
  then show "book_json (snd (createBook (Some c) w)) = Holds (fst (readBooks w) @ [c])"
    by (simp add: writeFile_def)
  assume "book_json w = Holds books \<and> p < length books"
  with v l show "book_json (snd (updateBook (Num (int p)) (Some c) w)) = Holds (books[p := c])"
    by (simp add: updateBook_in_range)
qed

lemma validate_bookWithIsbn: "validateBookData bookWithIsbn = Inr []"
  by (simp add: bookWithIsbn_def validateBookData_def isBlank_def isBadDate_def bindE_def
      str_def testDate_def dateRe_def isDigit_def trim_def trimStart_def isWhiteSpace_def)

lemma validate_specRecord: "validateBookData specRecord = Inr [err_book, err_subDate]"
  by (simp add: specRecord_def validateBookData_def isBlank_def isBadDate_def bindE_def
      str_def testDate_def dateRe_def isDigit_def trim_def trimStart_def isWhiteSpace_def)

theorem stored_record_is_candidate_witness:
  "validateBookData bookWithIsbn = validateBookData bookA \<and>
   keysOf bookWithIsbn =
     [str ''book'', str ''author'', str ''summary'', str ''subDate'', str ''isbn''] \<and>
   book_json (snd (createBook (Some bookWithIsbn) threeBooks)) =
     Holds [JStr (str ''r0''), JStr (str ''r1''), JStr (str ''r2''), bookWithIsbn] \<and>
   book_json (snd (updateBook (Num 1) (Some bookWithIsbn) threeBooks)) =
     Holds [JStr (str ''r0''), bookWithIsbn, JStr (str ''r2'')]"
proof -
  have b: "book_json threeBooks = Holds [JStr (str ''r0''), JStr (str ''r1''), JStr (str ''r2'')]"
    and l: "\<not> book_json_locked threeBooks"
    by (simp_all add: threeBooks_def)
  have r: "readBooks threeBooks = ([JStr (str ''r0''), JStr (str ''r1''), JStr (str ''r2'')], threeBooks)"
    by (rule readBooks_Holds [OF b])
  have g: "getProp bookWithIsbn (str ''book'') = getProp bookA (str ''book'')"
    "getProp bookWithIsbn (str ''author'') = getProp bookA (str ''author'')"
    "getProp bookWithIsbn (str ''summary'') = getProp bookA (str ''summary'')"
    "getProp bookWithIsbn (str ''subDate'') = getProp bookA (str ''subDate'')"
    by (simp_all add: bookWithIsbn_def bookA_def str_def)
  have k: "keysOf bookWithIsbn =
     [str ''book'', str ''author'', str ''summary'', str ''subDate'', str ''isbn'']"
    by (simp add: bookWithIsbn_def)
  from stored_record_is_candidate [of bookWithIsbn bookA threeBooks
      "[JStr (str ''r0''), JStr (str ''r1''), JStr (str ''r2'')]" 1]
    g validate_bookWithIsbn b l r k
  show ?thesis by simp
qed

text \<open>
  C6 as stated fails on the key names. A candidate with the keys \<open>title\<close>, \<open>author\<close>,
  \<open>summary\<close>, \<open>publishDate\<close> is rejected, with the violations of an absent name and an
  absent date, and nothing is stored; a candidate with the keys \<open>book\<close>, \<open>author\<close>,
  \<open>summary\<close>, \<open>subDate\<close> and a fifth key \<open>isbn\<close> is stored as it is, five keys and none
  of them \<open>title\<close> or \<open>publishDate\<close>.
\<close>

theorem record_keys_counterexample:
  "createBook (Some specRecord) missingWritable =
     (Reply 400 (invalid [err_book, err_subDate]), missingWritable) \<and>
   fst (createBook (Some bookWithIsbn) missingWritable) =
     Reply 201 (success msg_added (Some bookWithIsbn)) \<and>
   book_json (snd (createBook (Some bookWithIsbn) missingWritable)) = Holds [bookWithIsbn] \<and>
   keysOf bookWithIsbn =
     [str ''book'', str ''author'', str ''summary'', str ''subDate'', str ''isbn''] \<and>
   str ''title'' \<notin> set (keysOf bookWithIsbn) \<and>
   str ''publishDate'' \<notin> set (keysOf bookWithIsbn)"
proof -
  have 1: "createBook (Some specRecord) missingWritable =
     (Reply 400 (invalid [err_book, err_subDate]), missingWritable)"
    by (simp add: createBook_def validate_specRecord)
  have l: "\<not> book_json_locked missingWritable"
    and r: "readBooks missingWritable = ([], consoleError msg_read_failed missingWritable)"
    by (simp_all add: missingWritable_def readBooks_eq)
  have io: "\<not> io_fails (consoleError msg_read_failed missingWritable) f" for f
    by (simp add: missingWritable_def consoleError_def)
  from createBook_valid [OF validate_bookWithIsbn l]
  have 2: "fst (createBook (Some bookWithIsbn) missingWritable) =
     Reply 201 (success msg_added (Some bookWithIsbn))"
    and 3: "book_json (snd (createBook (Some bookWithIsbn) missingWritable)) = Holds [bookWithIsbn]"
    by (simp_all add: r writeFile_def io)
  have 4: "keysOf bookWithIsbn =
     [str ''book'', str ''author'', str ''summary'', str ''subDate'', str ''isbn'']"
    by (simp add: bookWithIsbn_def)
  have 5: "str ''title'' \<notin> set (keysOf bookWithIsbn)"
    "str ''publishDate'' \<notin> set (keysOf bookWithIsbn)"
    by (simp_all add: 4) (simp_all add: str_def)
  from 1 2 3 4 5 show ?thesis by simp
qed

end
